theory Spec2Isabelle
  imports Main
begin

section \<open>The request side: context, instances, events\<close>

text \<open>
  Modelled from the spec: the type \<open>Context\<close> of package \<open>context\<close>, which the
  activator imports from another package of the repository. It ``exposes a
  readable/settable stopped-or-continue flag; passed through every lifecycle hook and
  the user method''. The flag is the field \<open>stopped\<close>; whatever else a context holds
  (response writer, parameters, values) is the field \<open>rest\<close>.
\<close>

record 'c Context =
  stopped :: bool
  rest :: 'c

definition IsStopped :: "'c Context \<Rightarrow> bool" where
  "IsStopped c = stopped c"

text \<open>
  A call on a controller instance that also receives the request context
  (\<open>BeginRequest(ctx)\<close>, \<open>EndRequest(ctx)\<close>, the user method through its adapter,
  \<open>modelController.Handle(ctx, c)\<close>) may change the instance it is called on and the
  context: it is a function on the pair. A call that receives the instance only
  (\<open>SetName\<close>, the Binder's \<open>handle(c)\<close>,
  \<open>persistenceController.Handle(c)\<close>) is a function on the instance. The hooks are
  the user's and the collaborators' code: they are parameters of the model, assumed to
  return, and they act on what the handler passes them.
\<close>

type_synonym ('i, 'c) hook = "'i \<times> 'c Context \<Rightarrow> 'i \<times> 'c Context"

text \<open>
  What \<open>reflect\<close> knows of a named type \<open>T\<close>: its name and package path, its zero
  value, and the method set of \<open>*T\<close>. The three methods of the interface
  \<open>BaseController\<close> are looked up by the type assertion of the handler, so each is
  present or absent; \<open>methods\<close> is the method set as \<open>reflect.Value.Method(i)\<close>
  indexes it.
\<close>

record ('i, 'c) ntype =
  type_Name :: string
  type_PkgPath :: string
  zero :: 'i
  method_SetName :: "(string \<Rightarrow> 'i \<Rightarrow> 'i) option"
  method_BeginRequest :: "('i, 'c) hook option"
  method_EndRequest :: "('i, 'c) hook option"
  methods :: "('i, 'c) hook list"

text \<open>
  A \<open>reflect.Type\<close> as the activator meets it: nil, a named type \<open>T\<close>, or the
  pointer type \<open>*T\<close>. (Only \<open>T\<close> and \<open>*T\<close> have methods, so only they can be the
  dynamic type of a \<open>BaseController\<close>.)
\<close>

datatype ('i, 'c) rtype = NilType | Named "('i, 'c) ntype" | PtrTo "('i, 'c) ntype"

text \<open>A \<open>reflect.Value\<close>: the zero (invalid) Value, or a value of a named type.\<close>

datatype ('i, 'c) rvalue = Invalid | Valid "('i, 'c) ntype" 'i

text \<open>
  A value of interface type \<open>BaseController\<close> as a caller can pass it: the nil
  interface, a value of type \<open>T\<close>, or a pointer of type \<open>*T\<close> (nil, or pointing to a
  value).
\<close>

datatype ('i, 'c) iface = NilInterface | OfValue "('i, 'c) ntype" 'i | OfPointer "('i, 'c) ntype" "'i option"

datatype panic =
  NilDereference
  | InvalidValue
  | ElemOfNonPointer
  | InterfaceConversion
  | MethodIndexOutOfRange
  | NilFuncCall

definition reflect_TypeOf :: "('i, 'c) iface \<Rightarrow> ('i, 'c) rtype" where
  "reflect_TypeOf base =
     (case base of NilInterface \<Rightarrow> NilType | OfValue n x \<Rightarrow> Named n | OfPointer n p \<Rightarrow> PtrTo n)"

definition reflect_Indirect_ValueOf :: "('i, 'c) iface \<Rightarrow> ('i, 'c) rvalue" where
  "reflect_Indirect_ValueOf base =
     (case base of
        NilInterface \<Rightarrow> Invalid
      | OfValue n x \<Rightarrow> Valid n x
      | OfPointer n None \<Rightarrow> Invalid
      | OfPointer n (Some x) \<Rightarrow> Valid n x)"

definition Value_Type :: "('i, 'c) rvalue \<Rightarrow> panic + ('i, 'c) ntype" where
  "Value_Type v = (case v of Invalid \<Rightarrow> Inl InvalidValue | Valid n x \<Rightarrow> Inr n)"

definition Elem :: "('i, 'c) rtype \<Rightarrow> panic + ('i, 'c) ntype" where
  "Elem ty =
     (case ty of
        NilType \<Rightarrow> Inl NilDereference
      | Named n \<Rightarrow> Inl ElemOfNonPointer
      | PtrTo n \<Rightarrow> Inr n)"

text \<open>
  What a request handler runs on: the request's context, the controller instances
  allocated so far (\<open>reflect.New\<close> appends one; an instance is named by its position),
  and the calls made so far, in order.
\<close>

datatype event =
  is_New: Ev_New nat
  | is_binder_handle: Ev_binder_handle nat
  | is_SetName: Ev_SetName nat string
  | is_persistence_Handle: Ev_persistence_Handle nat
  | is_BeginRequest: Ev_BeginRequest nat
  | is_MethodCall: Ev_MethodCall nat int
  | is_model_Handle: Ev_model_Handle nat
  | is_EndRequest: Ev_EndRequest nat

record ('i, 'c) rstate =
  ctx :: "'c Context"
  heap :: "'i list"
  trace :: "event list"

text \<open>
  A \<open>context.Handler\<close>, \<open>func(ctx context.Context)\<close>: it returns, or panics in the
  state it had reached.
\<close>

type_synonym ('i, 'c) Handler = "('i, 'c) rstate \<Rightarrow> (panic \<times> ('i, 'c) rstate) + ('i, 'c) rstate"

text \<open>The state a call of a handler ends in, and the calls it made on the way.\<close>

definition final :: "(panic \<times> ('i, 'c) rstate) + ('i, 'c) rstate \<Rightarrow> ('i, 'c) rstate" where
  "final r = (case r of Inl (p, s) \<Rightarrow> s | Inr s \<Rightarrow> s)"

definition made :: "('i, 'c) Handler \<Rightarrow> ('i, 'c) rstate \<Rightarrow> event list" where
  "made h s = drop (length (trace s)) (trace (final (h s)))"

section \<open>The descriptor and its collaborators\<close>

text \<open>
  Modelled from the spec: the Binder (type \<open>binder\<close> of this package, declared in
  another file of the package) ``exposes handle(instance) and optionally a sequence of
  middleware handlers run before the main handler''; its \<open>fields\<close> (here \<open>fields'\<close>)
  are what \<open>ActivateController\<close> logs, each with its full name and its value.
\<close>

record ('i, 'c, 'v) binder_t =
  fields' :: "(string \<times> 'v) list"
  middleware :: "('i, 'c) Handler list"
  handle :: "'i \<Rightarrow> 'i"

text \<open>
  Modelled from the spec: the types \<open>model.Controller\<close> and
  \<open>persistence.Controller\<close>, of two other packages of the repository. The Model
  Controller ``exposes Handle(ctx, instance)'' and the Persistence Controller ``exposes
  Handle(instance)''; each is given by that method.
\<close>

type_synonym ('i, 'c) model_Controller = "('i, 'c) hook"

type_synonym 'i persistence_Controller = "'i \<Rightarrow> 'i"

text \<open>
  \<open>TController\<close>. The three collaborators are pointers in the source, nil when absent:
  \<open>None\<close> here. The field the source calls \<open>binder\<close> is \<open>binder'\<close> here.
\<close>

record ('i, 'c, 'v) TController =
  Name :: string
  FullName :: string
  Type :: "('i, 'c) rtype"
  Value :: "('i, 'c) rvalue"
  binder' :: "('i, 'c, 'v) binder_t option"
  modelController :: "('i, 'c) model_Controller option"
  persistenceController :: "'i persistence_Controller option"

text \<open>
  Modelled from the spec: the type \<open>methodfunc.MethodFunc\<close>, of another package of
  the repository. A method descriptor is ``(name, verb, path, method index)'', and the
  handler factory captures ``the method-invocation adapter for that signature''. The
  fields are those the activator reads: the name of the method (\<open>FuncName\<close>, the
  source's \<open>Name\<close>), \<open>HTTPMethod\<close>, \<open>RelPath\<close>, \<open>Index\<close>, and the adapter
  \<open>MethodCall(ctx, f)\<close>, which calls the bound method \<open>f\<close>; a Go func value may be
  nil.
\<close>

record ('i, 'c) MethodFunc =
  FuncName :: string
  HTTPMethod :: string
  RelPath :: string
  Index :: int
  MethodCall :: "(('i, 'c) hook \<Rightarrow> ('i, 'c) hook) option"

text \<open>The interface value \<open>b\<close> of the handler: the three methods the assertion found.\<close>

record ('i, 'c) BaseController =
  SetName :: "string \<Rightarrow> 'i \<Rightarrow> 'i"
  BeginRequest :: "('i, 'c) hook"
  EndRequest :: "('i, 'c) hook"

definition assert_BaseController :: "('i, 'c) ntype \<Rightarrow> ('i, 'c) BaseController option" where
  "assert_BaseController n =
     (case method_SetName n of
        None \<Rightarrow> None
      | Some sn \<Rightarrow>
          (case method_BeginRequest n of
             None \<Rightarrow> None
           | Some br \<Rightarrow>
               (case method_EndRequest n of
                  None \<Rightarrow> None
                | Some er \<Rightarrow> Some \<lparr>SetName = sn, BeginRequest = br, EndRequest = er\<rparr>)))"

text \<open>\<open>c.Method(i)\<close>: the bound method, or the panic of \<open>reflect\<close> out of range.\<close>

definition Method :: "('i, 'c) ntype \<Rightarrow> int \<Rightarrow> ('i, 'c) hook option" where
  "Method n i = (if 0 \<le> i \<and> i < int (length (methods n)) then Some (methods n ! nat i) else None)"

section \<open>The handler: \<open>HandlerOf\<close>\<close>

definition emit :: "event \<Rightarrow> ('i, 'c) rstate \<Rightarrow> ('i, 'c) rstate" where
  "emit e s = s\<lparr>trace := trace s @ [e]\<rparr>"

text \<open>\<open>reflect.New(elem)\<close>: a new instance, zero-valued, at the next position.\<close>

definition reflect_New :: "('i, 'c) ntype \<Rightarrow> ('i, 'c) rstate \<Rightarrow> nat \<times> ('i, 'c) rstate" where
  "reflect_New n s = (length (heap s), emit (Ev_New (length (heap s))) (s\<lparr>heap := heap s @ [zero n]\<rparr>))"

text \<open>
  A call on the instance at \<open>c\<close>; a call on it that is also given the context. The
  handler makes them on the instance it has allocated, so \<open>c\<close> is a position of the
  heap.
\<close>

definition on_instance :: "('i \<Rightarrow> 'i) \<Rightarrow> nat \<Rightarrow> ('i, 'c) rstate \<Rightarrow> ('i, 'c) rstate" where
  "on_instance f c s = s\<lparr>heap := (heap s)[c := f (heap s ! c)]\<rparr>"

definition on_instance_ctx :: "('i, 'c) hook \<Rightarrow> nat \<Rightarrow> ('i, 'c) rstate \<Rightarrow> ('i, 'c) rstate" where
  "on_instance_ctx h c s =
     (case h (heap s ! c, ctx s) of (x, k) \<Rightarrow> s\<lparr>ctx := k, heap := (heap s)[c := x]\<rparr>)"

text \<open>
  The variables the closure of \<open>HandlerOf\<close> captures: the receiver \<open>t\<close> (a copy, the
  receiver being a value), \<open>elem\<close>, \<open>ctrlName\<close>, the two presence flags,
  \<open>handleRequest\<close> and the parameter \<open>methodFunc\<close>.
\<close>

record ('i, 'c, 'v) closure =
  cap_t :: "('i, 'c, 'v) TController"
  cap_elem :: "('i, 'c) ntype"
  cap_ctrlName :: string
  cap_hasPersistenceData :: bool
  cap_hasModels :: bool
  cap_handleRequest :: "(('i, 'c) hook \<Rightarrow> ('i, 'c) hook) option"
  cap_methodFunc :: "('i, 'c) MethodFunc"

text \<open>
  The body of the closure, in two parts. \<open>prepare\<close> is lines 125 to 137: the new
  instance, the Binder, the assertion to \<open>BaseController\<close> (which panics when the type
  lacks one of the three methods), \<open>SetName\<close>, the persistence fields. It returns the
  instance, the interface value and the state in which the first stopped-check is made.
\<close>

definition prepare ::
  "('i, 'c, 'v) closure \<Rightarrow> ('i, 'c) rstate \<Rightarrow>
     (panic \<times> ('i, 'c) rstate) + (nat \<times> ('i, 'c) BaseController \<times> ('i, 'c) rstate)" where
  "prepare e s0 =
     (case reflect_New (cap_elem e) s0 of
        (c, s1) \<Rightarrow>
          let s2 = (case binder' (cap_t e) of
                      None \<Rightarrow> s1
                    | Some bd \<Rightarrow> on_instance (handle bd) c (emit (Ev_binder_handle c) s1))
          in (case assert_BaseController (cap_elem e) of
                None \<Rightarrow> Inl (InterfaceConversion, s2)
              | Some b \<Rightarrow>
                  let s3 = on_instance (SetName b (cap_ctrlName e)) c
                             (emit (Ev_SetName c (cap_ctrlName e)) s2)
                  in if cap_hasPersistenceData e
                     then (case persistenceController (cap_t e) of
                             None \<Rightarrow> Inl (NilDereference, s3)
                           | Some pc \<Rightarrow>
                               Inr (c, b, on_instance pc c (emit (Ev_persistence_Handle c) s3)))
                     else Inr (c, b, s3)))"

text \<open>
  \<open>serve\<close> is the whole body: \<open>prepare\<close>, then lines 141 to 162. It returns the
  captured variables too, as the call leaves them.
\<close>

definition serve ::
  "('i, 'c, 'v) closure \<Rightarrow> ('i, 'c) rstate \<Rightarrow>
     (panic \<times> ('i, 'c) rstate) + (('i, 'c, 'v) closure \<times> ('i, 'c) rstate)" where
  "serve e s0 =
     (case prepare e s0 of
        Inl p \<Rightarrow> Inl p
      | Inr (c, b, s4) \<Rightarrow>
          if IsStopped (ctx s4) then Inr (e, s4)
          else
            let s5 = on_instance_ctx (BeginRequest b) c (emit (Ev_BeginRequest c) s4)
            in if IsStopped (ctx s5) then Inr (e, s5)
               else
                 (case Method (cap_elem e) (Index (cap_methodFunc e)) of
                    None \<Rightarrow> Inl (MethodIndexOutOfRange, s5)
                  | Some f \<Rightarrow>
                      (case cap_handleRequest e of
                         None \<Rightarrow> Inl (NilFuncCall, s5)
                       | Some call \<Rightarrow>
                           let s6 = on_instance_ctx (call f) c
                                      (emit (Ev_MethodCall c (Index (cap_methodFunc e))) s5)
                           in if cap_hasModels e
                              then (case modelController (cap_t e) of
                                      None \<Rightarrow> Inl (NilDereference, s6)
                                    | Some mc \<Rightarrow>
                                        Inr (e, on_instance_ctx (EndRequest b) c
                                                  (emit (Ev_EndRequest c)
                                                     (on_instance_ctx mc c
                                                        (emit (Ev_model_Handle c) s6)))))
                              else Inr (e, on_instance_ctx (EndRequest b) c
                                             (emit (Ev_EndRequest c) s6)))))"

text \<open>The func value of a closure: the caller sees the state, not the captured variables.\<close>

definition func :: "('i, 'c, 'v) closure \<Rightarrow> ('i, 'c) Handler" where
  "func e = (\<lambda>s. case serve e s of Inl p \<Rightarrow> Inl p | Inr (e', s') \<Rightarrow> Inr s')"

text \<open>
  \<open>HandlerOf\<close>: \<open>t.Type.Elem()\<close> panics on a type that is not a pointer type; otherwise
  the result is the closure over the variables of lines 114 to 120, never nil.
\<close>

definition captured ::
  "('i, 'c, 'v) TController \<Rightarrow> ('i, 'c) MethodFunc \<Rightarrow> ('i, 'c) ntype \<Rightarrow> ('i, 'c, 'v) closure" where
  "captured t methodFunc el =
     \<lparr>cap_t = t,
      cap_elem = el,
      cap_ctrlName = Name t,
      cap_hasPersistenceData = (case persistenceController t of None \<Rightarrow> False | Some pc \<Rightarrow> True),
      cap_hasModels = (case modelController t of None \<Rightarrow> False | Some mc \<Rightarrow> True),
      cap_handleRequest = MethodCall methodFunc,
      cap_methodFunc = methodFunc\<rparr>"

definition HandlerOf ::
  "('i, 'c, 'v) TController \<Rightarrow> ('i, 'c) MethodFunc \<Rightarrow> panic + ('i, 'c) Handler option" where
  "HandlerOf t methodFunc =
     (case Elem (Type t) of
        Inl p \<Rightarrow> Inl p
      | Inr el \<Rightarrow> Inr (Some (func (captured t methodFunc el))))"

section \<open>Requests in flight together\<close>

text \<open>
  The same body, statement by statement, for requests that run at the same time. A
  program point is named by the line of the source the request is about to execute and
  carries the local variables that are live there: the instance \<open>c\<close> from line 126
  on, the interface value \<open>b\<close> from line 131 on. A request that has returned or
  panicked keeps the position of the instance it had. Run alone from line 125, the
  statements give what \<open>func\<close> gives (lemma \<open>steps_func\<close>).
\<close>

datatype ('i, 'c) pc =
  L125
  | L126 nat
  | L130 nat
  | L131 nat "('i, 'c) BaseController"
  | L135 nat "('i, 'c) BaseController"
  | L141 nat "('i, 'c) BaseController"
  | L146 nat "('i, 'c) BaseController"
  | L147 nat "('i, 'c) BaseController"
  | L154 nat "('i, 'c) BaseController"
  | L156 nat "('i, 'c) BaseController"
  | L162 nat "('i, 'c) BaseController"
  | Returned nat
  | Panicked nat panic

fun step ::
  "('i, 'c, 'v) closure \<Rightarrow> ('i, 'c) pc \<Rightarrow> ('i, 'c) rstate \<Rightarrow> ('i, 'c) pc \<times> ('i, 'c) rstate" where
  "step e L125 s = (case reflect_New (cap_elem e) s of (c, s1) \<Rightarrow> (L126 c, s1))"
| "step e (L126 c) s =
     (L130 c,
      case binder' (cap_t e) of
        None \<Rightarrow> s
      | Some bd \<Rightarrow> on_instance (handle bd) c (emit (Ev_binder_handle c) s))"
| "step e (L130 c) s =
     (case assert_BaseController (cap_elem e) of
        None \<Rightarrow> (Panicked c InterfaceConversion, s)
      | Some b \<Rightarrow> (L131 c b, s))"
| "step e (L131 c b) s =
     (L135 c b, on_instance (SetName b (cap_ctrlName e)) c (emit (Ev_SetName c (cap_ctrlName e)) s))"
| "step e (L135 c b) s =
     (if cap_hasPersistenceData e
      then (case persistenceController (cap_t e) of
              None \<Rightarrow> (Panicked c NilDereference, s)
            | Some pc \<Rightarrow> (L141 c b, on_instance pc c (emit (Ev_persistence_Handle c) s)))
      else (L141 c b, s))"
| "step e (L141 c b) s = (if IsStopped (ctx s) then (Returned c, s) else (L146 c b, s))"
| "step e (L146 c b) s =
     (L147 c b, on_instance_ctx (BeginRequest b) c (emit (Ev_BeginRequest c) s))"
| "step e (L147 c b) s = (if IsStopped (ctx s) then (Returned c, s) else (L154 c b, s))"
| "step e (L154 c b) s =
     (case Method (cap_elem e) (Index (cap_methodFunc e)) of
        None \<Rightarrow> (Panicked c MethodIndexOutOfRange, s)
      | Some f \<Rightarrow>
          (case cap_handleRequest e of
             None \<Rightarrow> (Panicked c NilFuncCall, s)
           | Some call \<Rightarrow>
               (L156 c b,
                on_instance_ctx (call f) c (emit (Ev_MethodCall c (Index (cap_methodFunc e))) s))))"
| "step e (L156 c b) s =
     (if cap_hasModels e
      then (case modelController (cap_t e) of
              None \<Rightarrow> (Panicked c NilDereference, s)
            | Some mc \<Rightarrow> (L162 c b, on_instance_ctx mc c (emit (Ev_model_Handle c) s)))
      else (L162 c b, s))"
| "step e (L162 c b) s =
     (Returned c, on_instance_ctx (EndRequest b) c (emit (Ev_EndRequest c) s))"
| "step e (Returned c) s = (Returned c, s)"
| "step e (Panicked c p) s = (Panicked c p, s)"

text \<open>The instance of a request: none before line 125 has run.\<close>

fun instance_of :: "('i, 'c) pc \<Rightarrow> nat option" where
  "instance_of L125 = None"
| "instance_of (L126 c) = Some c"
| "instance_of (L130 c) = Some c"
| "instance_of (L131 c b) = Some c"
| "instance_of (L135 c b) = Some c"
| "instance_of (L141 c b) = Some c"
| "instance_of (L146 c b) = Some c"
| "instance_of (L147 c b) = Some c"
| "instance_of (L154 c b) = Some c"
| "instance_of (L156 c b) = Some c"
| "instance_of (L162 c b) = Some c"
| "instance_of (Returned c) = Some c"
| "instance_of (Panicked c p) = Some c"

text \<open>What a request that has ended hands to its caller.\<close>

fun outcome ::
  "('i, 'c) pc \<times> ('i, 'c) rstate \<Rightarrow> ((panic \<times> ('i, 'c) rstate) + ('i, 'c) rstate) option" where
  "outcome (Returned c, s) = Some (Inr s)"
| "outcome (Panicked c p, s) = Some (Inl (p, s))"
| "outcome (l, s) = None"

text \<open>A request run alone for \<open>k\<close> statements.\<close>

fun steps ::
  "nat \<Rightarrow> ('i, 'c, 'v) closure \<Rightarrow> ('i, 'c) pc \<times> ('i, 'c) rstate \<Rightarrow> ('i, 'c) pc \<times> ('i, 'c) rstate" where
  "steps 0 e cfg = cfg"
| "steps (Suc k) e cfg = steps k e (step e (fst cfg) (snd cfg))"

text \<open>
  The server: the requests to one route, each at its program point and with its own
  context, over the one memory of instances and the one sequence of calls. A request
  arrives at any time; any request takes its next statement at any time.
\<close>

record ('i, 'c) server =
  requests :: "(('i, 'c) pc \<times> 'c Context) list"
  memory :: "'i list"
  history :: "event list"

inductive serving ::
  "('i, 'c, 'v) closure \<Rightarrow> ('i, 'c) server \<Rightarrow> ('i, 'c) server \<Rightarrow> bool"
  for e :: "('i, 'c, 'v) closure" where
  arrive: "serving e S (S\<lparr>requests := requests S @ [(L125, k)]\<rparr>)"
| advance:
    "i < length (requests S) \<Longrightarrow>
     requests S ! i = (l, k) \<Longrightarrow>
     step e l \<lparr>ctx = k, heap = memory S, trace = history S\<rparr> = (l', s') \<Longrightarrow>
     serving e S \<lparr>requests = (requests S)[i := (l', ctx s')], memory = heap s', history = trace s'\<rparr>"

text \<open>
  The instances of the requests of a server, in the order of the requests; the server
  it starts as (no request yet, instances of earlier requests in memory); the servers it
  can become.
\<close>

definition instances :: "('i, 'c) server \<Rightarrow> nat list" where
  "instances S =
     concat (map (\<lambda>r. case instance_of (fst r) of None \<Rightarrow> [] | Some c \<Rightarrow> [c]) (requests S))"

definition idle :: "'i list \<Rightarrow> event list \<Rightarrow> ('i, 'c) server" where
  "idle m evs = \<lparr>requests = [], memory = m, history = evs\<rparr>"

inductive reaches ::
  "('i, 'c, 'v) closure \<Rightarrow> ('i, 'c) server \<Rightarrow> ('i, 'c) server \<Rightarrow> bool"
  for e :: "('i, 'c, 'v) closure" and S0 :: "('i, 'c) server" where
  start: "reaches e S0 S0"
| next_step: "reaches e S0 S \<Longrightarrow> serving e S S' \<Longrightarrow> reaches e S0 S'"

section \<open>Activation and registration\<close>

text \<open>The two errors the package declares (lines 50 and 53).\<close>

datatype error = ErrMissingControllerInstance | ErrInvalidControllerType

text \<open>
  A call of \<open>golog\<close>: its level, its format and its arguments. The registration side
  runs on the host's router (whatever \<open>registerFunc\<close> changes), the calls of
  \<open>registerFunc\<close> made so far, each with its arguments, and the log.
\<close>

datatype level = ErrorLevel | WarnLevel | DebugLevel

datatype 'v logarg = LStr string | LInt int | LVal 'v

datatype 'v logline = Logf (level_of: level) (format_of: string) (args_of: "'v logarg list")

record ('i, 'c, 'r, 'v) rworld =
  router :: 'r
  calls :: "(string \<times> string \<times> ('i, 'c) Handler list) list"
  logs :: "'v logline list"

definition golog ::
  "level \<Rightarrow> string \<Rightarrow> 'v logarg list \<Rightarrow> ('i, 'c, 'r, 'v) rworld \<Rightarrow> ('i, 'c, 'r, 'v) rworld" where
  "golog l f as w = w\<lparr>logs := logs w @ [Logf l f as]\<rparr>"

type_synonym ('i, 'c, 'r) RegisterFunc = "string \<Rightarrow> string \<Rightarrow> ('i, 'c) Handler list \<Rightarrow> 'r \<Rightarrow> 'r"

definition call_registerFunc ::
  "('i, 'c, 'r) RegisterFunc \<Rightarrow> string \<Rightarrow> string \<Rightarrow> ('i, 'c) Handler list \<Rightarrow>
     ('i, 'c, 'r, 'v) rworld \<Rightarrow> ('i, 'c, 'r, 'v) rworld" where
  "call_registerFunc registerFunc relPath httpMethod hs w =
     w\<lparr>router := registerFunc relPath httpMethod hs (router w),
       calls := calls w @ [(relPath, httpMethod, hs)]\<rparr>"

text \<open>
  The functions the activator calls in other files and packages of the repository,
  taken as parameters: \<open>newBinder\<close>, \<open>model.Load\<close>, \<open>persistence.Load\<close>,
  \<open>methodfunc.Resolve\<close> (the method descriptors, and the text of its error when it has
  one) and \<open>CallOnActivate\<close> (it may change the bind values, call \<open>registerFunc\<close> and
  log).
\<close>

record ('i, 'c, 'v, 'r) deps =
  newBinder :: "('i, 'c) ntype \<Rightarrow> 'v list \<Rightarrow> ('i, 'c, 'v) binder_t option"
  model_Load :: "('i, 'c) rtype \<Rightarrow> ('i, 'c) model_Controller option"
  persistence_Load :: "('i, 'c) rtype \<Rightarrow> ('i, 'c) rvalue \<Rightarrow> 'i persistence_Controller option"
  Resolve :: "('i, 'c) rtype \<Rightarrow> ('i, 'c) MethodFunc list \<times> string option"
  CallOnActivate ::
    "('i, 'c) iface \<Rightarrow> 'v list \<Rightarrow> ('i, 'c, 'r) RegisterFunc \<Rightarrow> ('i, 'c, 'r, 'v) rworld \<Rightarrow>
       'v list \<times> ('i, 'c, 'r, 'v) rworld"

text \<open>
  \<open>strings.LastIndexByte\<close>: the last position of the byte, or \<open>-1\<close>; the search
  runs from the end of the string down.
\<close>

fun last_index_below :: "nat \<Rightarrow> string \<Rightarrow> char \<Rightarrow> int" where
  "last_index_below 0 s c = - 1"
| "last_index_below (Suc i) s c = (if s ! i = c then int i else last_index_below i s c)"

definition LastIndexByte :: "string \<Rightarrow> char \<Rightarrow> int" where
  "LastIndexByte s c = last_index_below (length s) s c"

text \<open>
  \<open>ActivateController\<close>. \<open>reflect.TypeOf\<close> of the nil interface is nil, and
  \<open>typ.Kind()\<close> panics on it; a type that is not a pointer type becomes its pointer
  type; \<open>val.Type()\<close> panics on the invalid Value that \<open>reflect.Indirect\<close> gives for
  a nil pointer. The error returned is always nil.
\<close>

definition ActivateController ::
  "('i, 'c, 'v, 'r) deps \<Rightarrow> ('i, 'c) iface \<Rightarrow> 'v list \<Rightarrow> ('i, 'c, 'r, 'v) rworld \<Rightarrow>
     panic + (('i, 'c, 'v) TController \<times> error option \<times> ('i, 'c, 'r, 'v) rworld)" where
  "ActivateController d base bindValues w =
     (case (case reflect_TypeOf base of
              NilType \<Rightarrow> Inl NilDereference
            | Named n \<Rightarrow> Inr (PtrTo n)
            | PtrTo n \<Rightarrow> Inr (PtrTo n)) of
        Inl p \<Rightarrow> Inl p
      | Inr typ \<Rightarrow>
          let val = reflect_Indirect_ValueOf base
          in (case Value_Type val of
                Inl p \<Rightarrow> Inl p
              | Inr vt \<Rightarrow>
                  let ctrlName = type_Name vt;
                      pkgPath = type_PkgPath vt;
                      fullName = drop (nat (LastIndexByte pkgPath CHR ''/'' + 1)) pkgPath @ ''.'' @ ctrlName
                  in (case Elem typ of
                        Inl p \<Rightarrow> Inl p
                      | Inr el \<Rightarrow>
                          let bd = newBinder d el bindValues;
                              w1 = (case bd of
                                      None \<Rightarrow> w
                                    | Some b \<Rightarrow>
                                        fold (\<lambda>bf. golog DebugLevel
                                                ''MVC %s: binder loaded for '%s' with value:\<newline>%#v''
                                                [LStr fullName, LStr (fst bf), LVal (snd bf)])
                                          (fields' b) w)
                          in Inr (\<lparr>Name = ctrlName,
                                   FullName = fullName,
                                   Type = typ,
                                   Value = val,
                                   binder' = bd,
                                   modelController = model_Load d typ,
                                   persistenceController = persistence_Load d typ val\<rparr>,
                                  None, w1))))"

text \<open>
  The loop of \<open>RegisterMethodHandlers\<close> over the method descriptors: a nil handler is
  skipped with a warning, any other is registered after the middleware.
\<close>

fun register_each ::
  "('i, 'c, 'v) TController \<Rightarrow> ('i, 'c, 'r) RegisterFunc \<Rightarrow> ('i, 'c) Handler list \<Rightarrow>
     ('i, 'c) MethodFunc list \<Rightarrow> ('i, 'c, 'r, 'v) rworld \<Rightarrow> panic + ('i, 'c, 'r, 'v) rworld" where
  "register_each t registerFunc mw [] w = Inr w"
| "register_each t registerFunc mw (m # ms) w =
     (case HandlerOf t m of
        Inl p \<Rightarrow> Inl p
      | Inr None \<Rightarrow>
          register_each t registerFunc mw ms
            (golog WarnLevel ''MVC %s: nil method handler found for %s''
               [LStr (FullName t), LStr (FuncName m)] w)
      | Inr (Some h) \<Rightarrow>
          let registeredHandlers = mw @ [h]
          in register_each t registerFunc mw ms
               (golog DebugLevel (''MVC %s: %s %s maps to function[%d] '%s'' @ [CHR 0x27])
                  [LStr (FullName t), LStr (HTTPMethod m), LStr (RelPath m), LInt (Index m),
                   LStr (FuncName m)]
                  (call_registerFunc registerFunc (RelPath m) (HTTPMethod m) registeredHandlers w)))"

definition RegisterMethodHandlers ::
  "('i, 'c, 'v, 'r) deps \<Rightarrow> ('i, 'c, 'v) TController \<Rightarrow> ('i, 'c, 'r) RegisterFunc \<Rightarrow>
     ('i, 'c, 'r, 'v) rworld \<Rightarrow> panic + ('i, 'c, 'r, 'v) rworld" where
  "RegisterMethodHandlers d t registerFunc w =
     (let mw = (case binder' t of
                  None \<Rightarrow> []
                | Some b \<Rightarrow> if length (middleware b) > 0 then middleware b else [])
      in (case Resolve d (Type t) of
            (ms, err) \<Rightarrow>
              register_each t registerFunc mw ms
                (case err of
                   None \<Rightarrow> w
                 | Some msg \<Rightarrow> golog ErrorLevel ''MVC %s: %s'' [LStr (FullName t), LStr msg] w)))"

text \<open>\<open>Register\<close>: the error it returns is the one of \<open>ActivateController\<close>.\<close>

definition Register ::
  "('i, 'c, 'v, 'r) deps \<Rightarrow> ('i, 'c) iface \<Rightarrow> 'v list \<Rightarrow> ('i, 'c, 'r) RegisterFunc \<Rightarrow>
     ('i, 'c, 'r, 'v) rworld \<Rightarrow> panic + (error option \<times> ('i, 'c, 'r, 'v) rworld)" where
  "Register d controller bindValues registerFunc w =
     (case CallOnActivate d controller bindValues registerFunc w of
        (bindValues', w1) \<Rightarrow>
          (case ActivateController d controller bindValues' w1 of
             Inl p \<Rightarrow> Inl p
           | Inr (t, Some err, w2) \<Rightarrow> Inr (Some err, w2)
           | Inr (t, None, w2) \<Rightarrow>
               (case RegisterMethodHandlers d t registerFunc w2 of
                  Inl p \<Rightarrow> Inl p
                | Inr w3 \<Rightarrow> Inr (None, w3))))"

section \<open>A controller to run the model on\<close>

text \<open>
  An instance is a pair: the name \<open>SetName\<close> stores and a field \<open>Counter\<close>. The rest
  of a context is what has been written to it. \<open>Items\<close> has the three methods of
  \<open>BaseController\<close> and two user methods; \<open>Guarded\<close> is \<open>Items\<close> with a
  \<open>BeginRequest\<close> that stops the request; \<open>Bare\<close> has no method at all.
\<close>

definition Items :: "(string \<times> int, string list) ntype" where
  "Items =
     \<lparr>type_Name = ''Items'',
      type_PkgPath = ''github.com/acme/shop/items'',
      zero = ([], 0),
      method_SetName = Some (\<lambda>name x. (name, snd x)),
      method_BeginRequest = Some (\<lambda>(x, k). (x, k\<lparr>rest := rest k @ [''begin'']\<rparr>)),
      method_EndRequest = Some (\<lambda>(x, k). (x, k\<lparr>rest := rest k @ [''end'']\<rparr>)),
      methods = [\<lambda>(x, k). ((fst x, snd x + 1), k\<lparr>rest := rest k @ [''get'']\<rparr>),
                 \<lambda>(x, k). (x, k\<lparr>rest := rest k @ [''post'']\<rparr>)]\<rparr>"

definition Guarded :: "(string \<times> int, string list) ntype" where
  "Guarded =
     Items\<lparr>type_Name := ''Guarded'',
           method_BeginRequest := Some (\<lambda>(x, k). (x, k\<lparr>stopped := True\<rparr>))\<rparr>"

definition Bare :: "(string \<times> int, string list) ntype" where
  "Bare =
     \<lparr>type_Name = ''Bare'',
      type_PkgPath = ''main'',
      zero = ([], 0),
      method_SetName = None,
      method_BeginRequest = None,
      method_EndRequest = None,
      methods = []\<rparr>"

definition auth :: "(string \<times> int, string list) Handler" where
  "auth s = Inr (s\<lparr>ctx := (ctx s)\<lparr>rest := rest (ctx s) @ [''auth'']\<rparr>\<rparr>)"

definition items_t :: "(string \<times> int, string list, int) TController" where
  "items_t =
     \<lparr>Name = ''Items'',
      FullName = ''items.Items'',
      Type = PtrTo Items,
      Value = Valid Items ([], 5),
      binder' = Some \<lparr>fields' = [(''Counter'', 7)], middleware = [auth], handle = (\<lambda>x. (fst x, 7))\<rparr>,
      modelController = Some (\<lambda>(x, k). (x, k\<lparr>rest := rest k @ [''model'']\<rparr>)),
      persistenceController = Some (\<lambda>x. (fst x, 5))\<rparr>"

definition guarded_t :: "(string \<times> int, string list, int) TController" where
  "guarded_t =
     items_t\<lparr>Name := ''Guarded'', FullName := ''items.Guarded'', Type := PtrTo Guarded,
             Value := Valid Guarded ([], 5)\<rparr>"

definition get_m :: "(string \<times> int, string list) MethodFunc" where
  "get_m =
     \<lparr>FuncName = ''Get'', HTTPMethod = ''GET'', RelPath = ''/'', Index = 0,
      MethodCall = Some (\<lambda>f. f)\<rparr>"

definition post_m :: "(string \<times> int, string list) MethodFunc" where
  "post_m =
     \<lparr>FuncName = ''Post'', HTTPMethod = ''POST'', RelPath = ''/'', Index = 1,
      MethodCall = Some (\<lambda>f. f)\<rparr>"

text \<open>A descriptor no resolution would give: no adapter, no such method, no names.\<close>

definition bad_m :: "(string \<times> int, string list) MethodFunc" where
  "bad_m = \<lparr>FuncName = [], HTTPMethod = [], RelPath = [], Index = - 1, MethodCall = None\<rparr>"

definition request :: "(string \<times> int, string list) rstate" where
  "request = \<lparr>ctx = \<lparr>stopped = False, rest = []\<rparr>, heap = [], trace = []\<rparr>"

definition stopped_request :: "(string \<times> int, string list) rstate" where
  "stopped_request = \<lparr>ctx = \<lparr>stopped = True, rest = [''auth'']\<rparr>, heap = [], trace = []\<rparr>"

text \<open>
  Collaborators: a Binder when there is a value to bind, no model fields, the
  \<open>Counter\<close> of the template as the persistence field, a resolution that gives the
  method descriptors it is built with, an activation hook that does nothing. The router
  is the list of the routes registered, each as verb and path.
\<close>

definition shop ::
  "(string \<times> int, string list) MethodFunc list \<Rightarrow> string option \<Rightarrow>
     (string \<times> int, string list, int, string list) deps" where
  "shop ms err =
     \<lparr>newBinder = (\<lambda>n vs. case vs of
                              [] \<Rightarrow> None
                            | v # vs' \<Rightarrow> Some \<lparr>fields' = [(''Counter'', v)], middleware = [auth],
                                                handle = (\<lambda>x. (fst x, v))\<rparr>),
      model_Load = (\<lambda>ty. None),
      persistence_Load = (\<lambda>ty v. case v of
                                     Invalid \<Rightarrow> None
                                   | Valid n x \<Rightarrow> Some (\<lambda>y. (fst y, snd x))),
      Resolve = (\<lambda>ty. (ms, err)),
      CallOnActivate = (\<lambda>base vs registerFunc w. (vs, w))\<rparr>"

definition add_route :: "(string \<times> int, string list, string list) RegisterFunc" where
  "add_route relPath httpMethod hs r = r @ [httpMethod @ '' '' @ relPath]"

definition nothing :: "(string \<times> int, string list, string list, int) rworld" where
  "nothing = \<lparr>router = [], calls = [], logs = []\<rparr>"

text \<open>
  Two requests in flight on the route of \<open>Get\<close>, each just past line 125, the second
  with a context that is already stopped.
\<close>

definition two_requests :: "(string \<times> int, string list) server" where
  "two_requests =
     \<lparr>requests = [(L126 0, \<lparr>stopped = False, rest = []\<rparr>), (L126 1, \<lparr>stopped = True, rest = []\<rparr>)],
      memory = [([], 0), ([], 0)],
      history = [Ev_New 0, Ev_New 1]\<rparr>"

section \<open>What a handler does\<close>

lemmas example_defs = Items_def Guarded_def Bare_def auth_def items_t_def guarded_t_def get_m_def
  post_m_def bad_m_def request_def stopped_request_def shop_def add_route_def nothing_def

lemmas handler_defs = func_def serve_def prepare_def captured_def reflect_New_def emit_def
  on_instance_def on_instance_ctx_def assert_BaseController_def IsStopped_def Method_def
  made_def final_def

lemma HandlerOf_PtrTo: "Type t = PtrTo n \<Longrightarrow> HandlerOf t m = Inr (Some (func (captured t m n)))"
  by (simp add: HandlerOf_def Elem_def)

lemma HandlerOf_Some:
  "HandlerOf t m = Inr (Some h) \<Longrightarrow> \<exists>n. Type t = PtrTo n \<and> h = func (captured t m n)"
  by (auto simp: HandlerOf_def Elem_def split: rtype.splits)

lemma captured_simps [simp]:
  "cap_t (captured t m n) = t"
  "cap_elem (captured t m n) = n"
  "cap_ctrlName (captured t m n) = Name t"
  "cap_hasPersistenceData (captured t m n) = (persistenceController t \<noteq> None)"
  "cap_hasModels (captured t m n) = (modelController t \<noteq> None)"
  "cap_handleRequest (captured t m n) = MethodCall m"
  "cap_methodFunc (captured t m n) = m"
  by (auto simp: captured_def split: option.splits)

text \<open>What \<open>prepare\<close> has done when it hands over, and when it panics.\<close>

lemma prepare_Inr:
  "prepare e s = Inr (c, b, s4) \<Longrightarrow>
     c = length (heap s) \<and> assert_BaseController (cap_elem e) = Some b \<and> ctx s4 = ctx s \<and>
     trace s4 =
       trace s @ [Ev_New c] @
       (case binder' (cap_t e) of None \<Rightarrow> [] | Some bd \<Rightarrow> [Ev_binder_handle c]) @
       [Ev_SetName c (cap_ctrlName e)] @
       (if cap_hasPersistenceData e then [Ev_persistence_Handle c] else [])"
  by (auto simp: prepare_def reflect_New_def emit_def on_instance_def Let_def
      split: option.splits if_splits)

lemma prepare_Inl:
  "prepare e s = Inl (p, s2) \<Longrightarrow>
     \<exists>evs. trace s2 = trace s @ evs \<and>
       list_all (\<lambda>ev. is_New ev \<or> is_binder_handle ev \<or> is_SetName ev) evs"
  by (auto simp: prepare_def reflect_New_def emit_def on_instance_def Let_def
      split: option.splits if_splits)

text \<open>
  C2. A request whose context is already stopped when the handler of \<open>HandlerOf\<close> is
  entered (no statement before line 141 is given the context, so this is the flag the
  first check reads): among the calls the handler makes there is no \<open>BeginRequest\<close>, no
  user method, no \<open>modelController.Handle\<close> and no \<open>EndRequest\<close>. This holds whether
  the handler returns or panics at the assertion of line 130.
\<close>

theorem stopped_on_entry_skips_lifecycle:
  assumes "HandlerOf t m = Inr (Some h)" and "IsStopped (ctx s)"
  shows "list_all (\<lambda>ev. \<not> is_BeginRequest ev \<and> \<not> is_MethodCall ev \<and>
                         \<not> is_model_Handle ev \<and> \<not> is_EndRequest ev) (made h s)"
proof -
  obtain n where h: "h = func (captured t m n)"
    using assms(1) HandlerOf_Some by blast
  show ?thesis
  proof (cases "prepare (captured t m n) s")
    case (Inl a)
    obtain p s2 where a: "a = (p, s2)" by (cases a)
    from prepare_Inl[OF Inl[unfolded a]] obtain evs where
      "trace s2 = trace s @ evs"
      "list_all (\<lambda>ev. is_New ev \<or> is_binder_handle ev \<or> is_SetName ev) evs"
      by blast
    then show ?thesis
      using Inl a by (auto simp: h made_def func_def serve_def final_def list_all_iff)
  next
    case (Inr a)
    obtain c b s4 where a: "a = (c, b, s4)" by (cases a)
    from prepare_Inr[OF Inr[unfolded a]] show ?thesis
      using Inr a assms(2)
      by (auto simp: h made_def func_def serve_def final_def list_all_iff IsStopped_def
          split: option.splits)
  qed
qed

theorem stopped_on_entry_skips_lifecycle_witness:
  "HandlerOf items_t get_m = Inr (Some (func (captured items_t get_m Items))) \<and>
   IsStopped (ctx stopped_request) \<and>
   made (func (captured items_t get_m Items)) stopped_request =
     [Ev_New 0, Ev_binder_handle 0, Ev_SetName 0 ''Items'', Ev_persistence_Handle 0] \<and>
   list_all (\<lambda>ev. \<not> is_BeginRequest ev \<and> \<not> is_MethodCall ev \<and>
                   \<not> is_model_Handle ev \<and> \<not> is_EndRequest ev)
     (made (func (captured items_t get_m Items)) stopped_request)"
proof -
  have 1: "HandlerOf items_t get_m = Inr (Some (func (captured items_t get_m Items)))"
    by (simp add: HandlerOf_def Elem_def items_t_def)
  have 2: "IsStopped (ctx stopped_request)"
    by (simp add: IsStopped_def stopped_request_def)
  have 3: "made (func (captured items_t get_m Items)) stopped_request =
     [Ev_New 0, Ev_binder_handle 0, Ev_SetName 0 ''Items'', Ev_persistence_Handle 0]"
    by (simp add: handler_defs example_defs)
  from stopped_on_entry_skips_lifecycle[OF 1 2] 1 2 3 show ?thesis by simp
qed

text \<open>
  C1. The claim fails on the code: when \<open>BeginRequest\<close> stops the request, the handler
  returns at line 148, so neither \<open>modelController.Handle\<close> nor \<open>EndRequest\<close> is
  called. Here the controller has a model controller, the context is not stopped on
  entry and is stopped after \<open>BeginRequest\<close>, and \<open>BeginRequest\<close> is the last call
  made.
\<close>

theorem BeginRequest_stop_counterexample:
  "HandlerOf guarded_t get_m = Inr (Some (func (captured guarded_t get_m Guarded))) \<and>
   \<not> IsStopped (ctx request) \<and>
   IsStopped (ctx (final (func (captured guarded_t get_m Guarded) request))) \<and>
   modelController guarded_t \<noteq> None \<and>
   made (func (captured guarded_t get_m Guarded)) request =
     [Ev_New 0, Ev_binder_handle 0, Ev_SetName 0 ''Guarded'', Ev_persistence_Handle 0,
      Ev_BeginRequest 0] \<and>
   \<not> list_ex is_model_Handle (made (func (captured guarded_t get_m Guarded)) request) \<and>
   \<not> list_ex is_EndRequest (made (func (captured guarded_t get_m Guarded)) request)"
  by (simp add: HandlerOf_def Elem_def handler_defs example_defs)

text \<open>
  C1, amended. For every request in which \<open>BeginRequest\<close> sets the stopped flag (the
  context is not stopped on entry, and is stopped when \<open>BeginRequest\<close> returns), the
  handler of \<open>HandlerOf\<close> returns right after \<open>BeginRequest\<close>: it calls neither the
  user method, nor \<open>modelController.Handle\<close>, nor \<open>EndRequest\<close>. The calls it makes are
  those of lines 125 to 137 and \<open>BeginRequest\<close>.
\<close>

theorem BeginRequest_stop_returns:
  assumes "Type t = PtrTo n"
    and "prepare (captured t m n) s = Inr (c, b, s4)"
    and "\<not> IsStopped (ctx s)"
    and "IsStopped (ctx (on_instance_ctx (BeginRequest b) c (emit (Ev_BeginRequest c) s4)))"
  shows "HandlerOf t m = Inr (Some (func (captured t m n))) \<and>
         func (captured t m n) s =
           Inr (on_instance_ctx (BeginRequest b) c (emit (Ev_BeginRequest c) s4)) \<and>
         made (func (captured t m n)) s =
           [Ev_New c] @
           (case binder' t of None \<Rightarrow> [] | Some bd \<Rightarrow> [Ev_binder_handle c]) @
           [Ev_SetName c (Name t)] @
           (case persistenceController t of None \<Rightarrow> [] | Some pc \<Rightarrow> [Ev_persistence_Handle c]) @
           [Ev_BeginRequest c]"
proof -
  from prepare_Inr[OF assms(2)] have p: "ctx s4 = ctx s"
    "trace s4 = trace s @ [Ev_New c] @
       (case binder' t of None \<Rightarrow> [] | Some bd \<Rightarrow> [Ev_binder_handle c]) @
       [Ev_SetName c (Name t)] @
       (case persistenceController t of None \<Rightarrow> [] | Some pc \<Rightarrow> [Ev_persistence_Handle c])"
    by (auto split: option.splits)
  have run: "func (captured t m n) s =
           Inr (on_instance_ctx (BeginRequest b) c (emit (Ev_BeginRequest c) s4))"
    using assms(2,3,4) p(1) by (simp add: func_def serve_def Let_def)
  have "trace (on_instance_ctx (BeginRequest b) c (emit (Ev_BeginRequest c) s4)) =
          trace s4 @ [Ev_BeginRequest c]"
    by (simp add: on_instance_ctx_def emit_def split: prod.splits)
  then show ?thesis
    using run p(2) HandlerOf_PtrTo[OF assms(1)] by (simp add: made_def final_def)
qed

theorem BeginRequest_stop_returns_witness:
  "Type guarded_t = PtrTo Guarded \<and>
   prepare (captured guarded_t get_m Guarded) request =
     Inr (0, \<lparr>SetName = (\<lambda>name x. (name, snd x)),
              BeginRequest = (\<lambda>(x, k). (x, k\<lparr>stopped := True\<rparr>)),
              EndRequest = (\<lambda>(x, k). (x, k\<lparr>rest := rest k @ [''end'']\<rparr>))\<rparr>,
          \<lparr>ctx = \<lparr>stopped = False, rest = []\<rparr>, heap = [(''Guarded'', 5)],
           trace = [Ev_New 0, Ev_binder_handle 0, Ev_SetName 0 ''Guarded'',
                    Ev_persistence_Handle 0]\<rparr>) \<and>
   \<not> IsStopped (ctx request) \<and>
   func (captured guarded_t get_m Guarded) request =
     Inr \<lparr>ctx = \<lparr>stopped = True, rest = []\<rparr>, heap = [(''Guarded'', 5)],
          trace = [Ev_New 0, Ev_binder_handle 0, Ev_SetName 0 ''Guarded'',
                   Ev_persistence_Handle 0, Ev_BeginRequest 0]\<rparr>"
proof -
  let ?b = "\<lparr>SetName = (\<lambda>name x. (name, snd x)),
             BeginRequest = (\<lambda>(x, k). (x, k\<lparr>stopped := True\<rparr>)),
             EndRequest = (\<lambda>(x, k). (x, k\<lparr>rest := rest k @ [''end'']\<rparr>))\<rparr>
            :: (string \<times> int, string list) BaseController"
  let ?s4 = "\<lparr>ctx = \<lparr>stopped = False, rest = []\<rparr>, heap = [(''Guarded'', 5)],
              trace = [Ev_New 0, Ev_binder_handle 0, Ev_SetName 0 ''Guarded'',
                       Ev_persistence_Handle 0]\<rparr>
             :: (string \<times> int, string list) rstate"
  have 1: "Type guarded_t = PtrTo Guarded"
    by (simp add: guarded_t_def)
  have 2: "prepare (captured guarded_t get_m Guarded) request = Inr (0, ?b, ?s4)"
    by (simp add: handler_defs example_defs)
  have 3: "\<not> IsStopped (ctx request)"
    by (simp add: IsStopped_def request_def)
  have 4: "IsStopped (ctx (on_instance_ctx (BeginRequest ?b) 0 (emit (Ev_BeginRequest 0) ?s4)))"
    by (simp add: IsStopped_def on_instance_ctx_def emit_def)
  from BeginRequest_stop_returns[OF 1 2 3 4] 1 2 3 show ?thesis
    by (simp add: on_instance_ctx_def emit_def)
qed

text \<open>
  C10. A request whose context is already stopped when the handler is entered, on a
  controller type that has the three methods of \<open>BaseController\<close>: the handler returns,
  having allocated one new instance from the zero value of the type, applied the Binder
  to it when there is one, then \<open>SetName\<close> with the \<open>Name\<close> of the descriptor, then
  the persistence controller when there is one; it made these calls in this order and
  no other, and it left the context and the instances of other requests as they were.
\<close>

theorem stopped_on_entry_still_prepares:
  assumes "Type t = PtrTo n" and "assert_BaseController n = Some b" and "IsStopped (ctx s)"
  shows "HandlerOf t m = Inr (Some (func (captured t m n))) \<and>
         func (captured t m n) s =
           Inr \<lparr>ctx = ctx s,
                heap = heap s @
                  [(case persistenceController t of None \<Rightarrow> id | Some pc \<Rightarrow> pc)
                     (SetName b (Name t)
                        ((case binder' t of None \<Rightarrow> id | Some bd \<Rightarrow> handle bd) (zero n)))],
                trace = trace s @ [Ev_New (length (heap s))] @
                  (case binder' t of
                     None \<Rightarrow> []
                   | Some bd \<Rightarrow> [Ev_binder_handle (length (heap s))]) @
                  [Ev_SetName (length (heap s)) (Name t)] @
                  (case persistenceController t of
                     None \<Rightarrow> []
                   | Some pc \<Rightarrow> [Ev_persistence_Handle (length (heap s))])\<rparr>"
  using assms
  by (auto simp: HandlerOf_PtrTo func_def serve_def prepare_def reflect_New_def emit_def
      on_instance_def Let_def split: option.splits)

theorem stopped_on_entry_still_prepares_witness:
  "Type items_t = PtrTo Items \<and>
   assert_BaseController Items \<noteq> None \<and>
   IsStopped (ctx stopped_request) \<and>
   HandlerOf items_t get_m = Inr (Some (func (captured items_t get_m Items))) \<and>
   func (captured items_t get_m Items) stopped_request =
     Inr \<lparr>ctx = \<lparr>stopped = True, rest = [''auth'']\<rparr>,
          heap = [(''Items'', 5)],
          trace = [Ev_New 0, Ev_binder_handle 0, Ev_SetName 0 ''Items'', Ev_persistence_Handle 0]\<rparr>"
proof -
  have 1: "Type items_t = PtrTo Items"
    by (simp add: items_t_def)
  have 2: "assert_BaseController Items =
             Some \<lparr>SetName = (\<lambda>name x. (name, snd x)),
                   BeginRequest = (\<lambda>(x, k). (x, k\<lparr>rest := rest k @ [''begin'']\<rparr>)),
                   EndRequest = (\<lambda>(x, k). (x, k\<lparr>rest := rest k @ [''end'']\<rparr>))\<rparr>"
    by (simp add: assert_BaseController_def Items_def)
  have 3: "IsStopped (ctx stopped_request)"
    by (simp add: IsStopped_def stopped_request_def)
  from stopped_on_entry_still_prepares[OF 1 2 3, of get_m] 1 2 3 show ?thesis
    by (simp add: items_t_def Items_def stopped_request_def)
qed

text \<open>
  C3. A request in which the stopped flag is never set (not on entry, not by
  \<open>BeginRequest\<close>), on a controller type that has the three methods of
  \<open>BaseController\<close> and for a resolved method (its index is in the method set, its
  adapter is not nil): the handler returns, and the calls it made are, in this order,
  the allocation, the Binder (only when there is one), \<open>SetName\<close>, the persistence
  controller (only when there is one), \<open>BeginRequest\<close>, the user method, the model
  controller (only when there is one), \<open>EndRequest\<close>.
\<close>

theorem unobstructed_order:
  assumes "Type t = PtrTo n"
    and "prepare (captured t m n) s = Inr (c, b, s4)"
    and "\<not> IsStopped (ctx s)"
    and "\<not> IsStopped (ctx (on_instance_ctx (BeginRequest b) c (emit (Ev_BeginRequest c) s4)))"
    and "Method n (Index m) = Some f"
    and "MethodCall m = Some call"
  shows "HandlerOf t m = Inr (Some (func (captured t m n))) \<and>
         (\<exists>s'. func (captured t m n) s = Inr s') \<and>
         made (func (captured t m n)) s =
           [Ev_New c] @
           (case binder' t of None \<Rightarrow> [] | Some bd \<Rightarrow> [Ev_binder_handle c]) @
           [Ev_SetName c (Name t)] @
           (case persistenceController t of None \<Rightarrow> [] | Some pc \<Rightarrow> [Ev_persistence_Handle c]) @
           [Ev_BeginRequest c, Ev_MethodCall c (Index m)] @
           (case modelController t of None \<Rightarrow> [] | Some mc \<Rightarrow> [Ev_model_Handle c]) @
           [Ev_EndRequest c]"
proof -
  from prepare_Inr[OF assms(2)] have p: "ctx s4 = ctx s"
    "trace s4 = trace s @ [Ev_New c] @
       (case binder' t of None \<Rightarrow> [] | Some bd \<Rightarrow> [Ev_binder_handle c]) @
       [Ev_SetName c (Name t)] @
       (case persistenceController t of None \<Rightarrow> [] | Some pc \<Rightarrow> [Ev_persistence_Handle c])"
    by (auto split: option.splits)
  have tr: "\<And>h x. trace (on_instance_ctx h c x) = trace x"
    by (simp add: on_instance_ctx_def split: prod.splits)
  show ?thesis
  proof (cases "modelController t")
    case None
    then show ?thesis
      using assms p HandlerOf_PtrTo[OF assms(1)]
      by (simp add: func_def serve_def Let_def made_def final_def tr emit_def)
  next
    case (Some mc)
    then show ?thesis
      using assms p HandlerOf_PtrTo[OF assms(1)]
      by (simp add: func_def serve_def Let_def made_def final_def tr emit_def)
  qed
qed

theorem unobstructed_order_witness:
  "Type items_t = PtrTo Items \<and>
   \<not> IsStopped (ctx request) \<and>
   Method Items (Index get_m) \<noteq> None \<and>
   MethodCall get_m \<noteq> None \<and>
   func (captured items_t get_m Items) request =
     Inr \<lparr>ctx = \<lparr>stopped = False, rest = [''begin'', ''get'', ''model'', ''end'']\<rparr>,
          heap = [(''Items'', 6)],
          trace = [Ev_New 0, Ev_binder_handle 0, Ev_SetName 0 ''Items'', Ev_persistence_Handle 0,
                   Ev_BeginRequest 0, Ev_MethodCall 0 0, Ev_model_Handle 0, Ev_EndRequest 0]\<rparr> \<and>
   made (func (captured items_t get_m Items)) request =
     [Ev_New 0, Ev_binder_handle 0, Ev_SetName 0 ''Items'', Ev_persistence_Handle 0,
      Ev_BeginRequest 0, Ev_MethodCall 0 0, Ev_model_Handle 0, Ev_EndRequest 0]"
proof -
  let ?b = "\<lparr>SetName = (\<lambda>name x. (name, snd x)),
             BeginRequest = (\<lambda>(x, k). (x, k\<lparr>rest := rest k @ [''begin'']\<rparr>)),
             EndRequest = (\<lambda>(x, k). (x, k\<lparr>rest := rest k @ [''end'']\<rparr>))\<rparr>
            :: (string \<times> int, string list) BaseController"
  let ?s4 = "\<lparr>ctx = \<lparr>stopped = False, rest = []\<rparr>, heap = [(''Items'', 5)],
              trace = [Ev_New 0, Ev_binder_handle 0, Ev_SetName 0 ''Items'',
                       Ev_persistence_Handle 0]\<rparr>
             :: (string \<times> int, string list) rstate"
  let ?get = "(\<lambda>(x, k). ((fst x, snd x + 1), k\<lparr>rest := rest k @ [''get'']\<rparr>))
              :: (string \<times> int, string list) hook"
  have 1: "Type items_t = PtrTo Items"
    by (simp add: items_t_def)
  have 2: "prepare (captured items_t get_m Items) request = Inr (0, ?b, ?s4)"
    by (simp add: handler_defs example_defs)
  have 3: "\<not> IsStopped (ctx request)"
    by (simp add: IsStopped_def request_def)
  have 4: "\<not> IsStopped (ctx (on_instance_ctx (BeginRequest ?b) 0 (emit (Ev_BeginRequest 0) ?s4)))"
    by (simp add: IsStopped_def on_instance_ctx_def emit_def)
  have 5: "Method Items (Index get_m) = Some ?get"
    by (simp add: Method_def Items_def get_m_def)
  have 6: "MethodCall get_m = Some (\<lambda>f. f)"
    by (simp add: get_m_def)
  have 7: "func (captured items_t get_m Items) request =
     Inr \<lparr>ctx = \<lparr>stopped = False, rest = [''begin'', ''get'', ''model'', ''end'']\<rparr>,
          heap = [(''Items'', 6)],
          trace = [Ev_New 0, Ev_binder_handle 0, Ev_SetName 0 ''Items'', Ev_persistence_Handle 0,
                   Ev_BeginRequest 0, Ev_MethodCall 0 0, Ev_model_Handle 0, Ev_EndRequest 0]\<rparr>"
    by (simp add: handler_defs example_defs)
  from unobstructed_order[OF 1 2 3 4 5 6] 1 3 5 6 7 show ?thesis
    by (simp add: items_t_def get_m_def)
qed

text \<open>
  C9. A call of the handler of \<open>HandlerOf\<close> that returns leaves the variables its
  closure captured as they were, and with them every field of the descriptor \<open>t\<close>:
  \<open>Name\<close>, \<open>FullName\<close>, \<open>Type\<close>, \<open>Value\<close>, the Binder, the model controller and the
  persistence controller.
\<close>

theorem descriptor_unchanged:
  assumes "Type t = PtrTo n" and "serve (captured t m n) s = Inr (e', s')"
  shows "HandlerOf t m = Inr (Some (func (captured t m n))) \<and>
         func (captured t m n) s = Inr s' \<and>
         e' = captured t m n \<and>
         Name (cap_t e') = Name t \<and>
         FullName (cap_t e') = FullName t \<and>
         Type (cap_t e') = Type t \<and>
         Value (cap_t e') = Value t \<and>
         binder' (cap_t e') = binder' t \<and>
         modelController (cap_t e') = modelController t \<and>
         persistenceController (cap_t e') = persistenceController t"
proof -
  have "e' = captured t m n"
    using assms(2)
    by (auto simp: serve_def Let_def split: sum.splits prod.splits if_splits option.splits)
  then show ?thesis
    using assms by (simp add: HandlerOf_PtrTo func_def)
qed

theorem descriptor_unchanged_witness:
  "Type items_t = PtrTo Items \<and>
   serve (captured items_t get_m Items) request =
     Inr (captured items_t get_m Items,
          \<lparr>ctx = \<lparr>stopped = False, rest = [''begin'', ''get'', ''model'', ''end'']\<rparr>,
           heap = [(''Items'', 6)],
           trace = [Ev_New 0, Ev_binder_handle 0, Ev_SetName 0 ''Items'', Ev_persistence_Handle 0,
                    Ev_BeginRequest 0, Ev_MethodCall 0 0, Ev_model_Handle 0, Ev_EndRequest 0]\<rparr>) \<and>
   Name (cap_t (captured items_t get_m Items)) = Name items_t \<and>
   binder' (cap_t (captured items_t get_m Items)) = binder' items_t"
proof -
  have 1: "Type items_t = PtrTo Items"
    by (simp add: items_t_def)
  have 2: "serve (captured items_t get_m Items) request =
     Inr (captured items_t get_m Items,
          \<lparr>ctx = \<lparr>stopped = False, rest = [''begin'', ''get'', ''model'', ''end'']\<rparr>,
           heap = [(''Items'', 6)],
           trace = [Ev_New 0, Ev_binder_handle 0, Ev_SetName 0 ''Items'', Ev_persistence_Handle 0,
                    Ev_BeginRequest 0, Ev_MethodCall 0 0, Ev_model_Handle 0, Ev_EndRequest 0]\<rparr>)"
    by (simp add: serve_def prepare_def captured_def reflect_New_def emit_def on_instance_def
        on_instance_ctx_def assert_BaseController_def IsStopped_def Method_def example_defs)
  from descriptor_unchanged[OF 1 2] 1 2 show ?thesis
    by simp
qed

section \<open>What activation and registration do\<close>

lemmas registration_defs = RegisterMethodHandlers_def Register_def ActivateController_def
  golog_def call_registerFunc_def reflect_TypeOf_def reflect_Indirect_ValueOf_def Value_Type_def
  Elem_def

text \<open>What one descriptor adds to the registration, when its handler is not nil.\<close>

lemma register_each_PtrTo:
  "Type t = PtrTo n \<Longrightarrow>
     register_each t registerFunc mw ms w =
       Inr \<lparr>router = fold (\<lambda>m. registerFunc (RelPath m) (HTTPMethod m) (mw @ [func (captured t m n)]))
                        ms (router w),
            calls = calls w @
                      map (\<lambda>m. (RelPath m, HTTPMethod m, mw @ [func (captured t m n)])) ms,
            logs = logs w @
                     map (\<lambda>m. Logf DebugLevel (''MVC %s: %s %s maps to function[%d] '%s'' @ [CHR 0x27])
                                 [LStr (FullName t), LStr (HTTPMethod m), LStr (RelPath m),
                                  LInt (Index m), LStr (FuncName m)]) ms\<rparr>"
proof (induction ms arbitrary: w)
  case Nil
  then show ?case by simp
next
  case (Cons m ms)
  show ?case
    using Cons.prems
    by (simp add: HandlerOf_PtrTo Cons.IH[OF Cons.prems] golog_def call_registerFunc_def Let_def)
qed

lemma RegisterMethodHandlers_PtrTo:
  assumes "Type t = PtrTo n" and "Resolve d (Type t) = (ms, err)"
  shows "RegisterMethodHandlers d t registerFunc w =
       Inr \<lparr>router = fold (\<lambda>m. registerFunc (RelPath m) (HTTPMethod m)
                                 ((case binder' t of None \<Rightarrow> [] | Some b \<Rightarrow> middleware b) @
                                  [func (captured t m n)]))
                        ms (router w),
            calls = calls w @
                      map (\<lambda>m. (RelPath m, HTTPMethod m,
                                 (case binder' t of None \<Rightarrow> [] | Some b \<Rightarrow> middleware b) @
                                 [func (captured t m n)])) ms,
            logs = logs w @
                     (case err of
                        None \<Rightarrow> []
                      | Some msg \<Rightarrow> [Logf ErrorLevel ''MVC %s: %s'' [LStr (FullName t), LStr msg]]) @
                     map (\<lambda>m. Logf DebugLevel (''MVC %s: %s %s maps to function[%d] '%s'' @ [CHR 0x27])
                                 [LStr (FullName t), LStr (HTTPMethod m), LStr (RelPath m),
                                  LInt (Index m), LStr (FuncName m)]) ms\<rparr>"
proof -
  have mw: "(case binder' t of None \<Rightarrow> [] | Some b \<Rightarrow> if length (middleware b) > 0 then middleware b else [])
            = (case binder' t of None \<Rightarrow> [] | Some b \<Rightarrow> middleware b)"
    by (simp split: option.splits)
  show ?thesis
    using assms
    by (simp add: RegisterMethodHandlers_def Let_def mw register_each_PtrTo golog_def
        split: option.splits)
qed

lemma HandlerOf_not_nil: "HandlerOf t m \<noteq> Inr None"
  by (simp add: HandlerOf_def split: sum.splits)

text \<open>
  C5. For a descriptor whose \<open>Type\<close> is a pointer type (as \<open>ActivateController\<close>
  builds it) and whatever \<open>methodfunc.Resolve\<close> returns: \<open>RegisterMethodHandlers\<close>
  returns, and the number of calls of \<open>registerFunc\<close> it made is the number of
  descriptors returned minus the number of those for which \<open>HandlerOf\<close> gave nil; the
  calls are for the paths and verbs of the descriptors returned, in their order. When
  the resolution also returned an error, the error is logged at error level, once, and
  the registration is the same.
\<close>

theorem routes_count:
  assumes "Type t = PtrTo n" and "Resolve d (Type t) = (ms, err)"
  shows "\<exists>w'. RegisterMethodHandlers d t registerFunc w = Inr w' \<and>
           length (calls w') =
             length (calls w) + (length ms - length (filter (\<lambda>m. HandlerOf t m = Inr None) ms)) \<and>
           map (\<lambda>r. (fst r, fst (snd r))) (drop (length (calls w)) (calls w')) =
             map (\<lambda>m. (RelPath m, HTTPMethod m)) ms \<and>
           (case err of
              None \<Rightarrow> filter (\<lambda>l. level_of l = ErrorLevel) (logs w') =
                        filter (\<lambda>l. level_of l = ErrorLevel) (logs w)
            | Some msg \<Rightarrow> filter (\<lambda>l. level_of l = ErrorLevel) (logs w') =
                           filter (\<lambda>l. level_of l = ErrorLevel) (logs w) @
                           [Logf ErrorLevel ''MVC %s: %s'' [LStr (FullName t), LStr msg]])"
proof -
  have none: "filter (\<lambda>m. HandlerOf t m = Inr None) ms = []"
    by (simp add: HandlerOf_not_nil)
  have dbg: "\<And>f. filter (\<lambda>l. level_of l = ErrorLevel) (map (\<lambda>m. Logf DebugLevel (f m) (g m)) ms) = []" for g
    by (induction ms) auto
  show ?thesis
    unfolding RegisterMethodHandlers_PtrTo[OF assms] none
    by (simp add: dbg comp_def split: option.splits)
qed

theorem routes_count_witness:
  "Type items_t = PtrTo Items \<and>
   Resolve (shop [get_m, post_m] (Some ''bad method'')) (Type items_t) =
     ([get_m, post_m], Some ''bad method'') \<and>
   (\<exists>w'. RegisterMethodHandlers (shop [get_m, post_m] (Some ''bad method'')) items_t add_route nothing =
           Inr w' \<and>
         length (calls w') = 2 \<and>
         map (\<lambda>r. (fst r, fst (snd r))) (calls w') = [(''/'', ''GET''), (''/'', ''POST'')] \<and>
         filter (\<lambda>l. level_of l = ErrorLevel) (logs w') =
           [Logf ErrorLevel ''MVC %s: %s'' [LStr ''items.Items'', LStr ''bad method'']])"
proof -
  have 1: "Type items_t = PtrTo Items"
    by (simp add: items_t_def)
  have 2: "Resolve (shop [get_m, post_m] (Some ''bad method'')) (Type items_t) =
             ([get_m, post_m], Some ''bad method'')"
    by (simp add: shop_def)
  have 3: "filter (\<lambda>m. HandlerOf items_t m = Inr None) [get_m, post_m] = []"
    by (simp add: HandlerOf_not_nil)
  from routes_count[OF 1 2, of add_route nothing] obtain w' where
    w': "RegisterMethodHandlers (shop [get_m, post_m] (Some ''bad method'')) items_t add_route nothing =
           Inr w'"
    "length (calls w') = length (calls nothing) + (length [get_m, post_m] - length ([] :: nat list))"
    "map (\<lambda>r. (fst r, fst (snd r))) (drop (length (calls nothing)) (calls w')) =
       map (\<lambda>m. (RelPath m, HTTPMethod m)) [get_m, post_m]"
    "filter (\<lambda>l. level_of l = ErrorLevel) (logs w') =
       filter (\<lambda>l. level_of l = ErrorLevel) (logs nothing) @
       [Logf ErrorLevel ''MVC %s: %s'' [LStr (FullName items_t), LStr ''bad method'']]"
    unfolding 3 by auto
  have 4: "length (calls w') = 2"
    using w'(2) by (simp add: nothing_def)
  have 5: "map (\<lambda>r. (fst r, fst (snd r))) (calls w') = [(''/'', ''GET''), (''/'', ''POST'')]"
    using w'(3) by (simp add: nothing_def get_m_def post_m_def)
  have 6: "filter (\<lambda>l. level_of l = ErrorLevel) (logs w') =
           [Logf ErrorLevel ''MVC %s: %s'' [LStr ''items.Items'', LStr ''bad method'']]"
    using w'(4) by (simp add: nothing_def items_t_def)
  show ?thesis
    by (intro conjI exI[of _ w']) (fact 1 2 w'(1) 4 5 6)+
qed

text \<open>
  C8. For a descriptor whose \<open>Type\<close> is a pointer type and whatever
  \<open>methodfunc.Resolve\<close> returns: \<open>RegisterMethodHandlers\<close> calls \<open>registerFunc\<close> once
  for each descriptor returned, in their order, with the relative path of the
  descriptor, its verb, and the middleware of the Binder (none when there is no Binder)
  followed by the handler \<open>HandlerOf\<close> gives for that descriptor; the router ends as
  these calls leave it.
\<close>

theorem registered_arguments:
  assumes "Type t = PtrTo n" and "Resolve d (Type t) = (ms, err)"
  shows "\<exists>w'. RegisterMethodHandlers d t registerFunc w = Inr w' \<and>
           calls w' =
             calls w @
             map (\<lambda>m. (RelPath m, HTTPMethod m,
                        (case binder' t of None \<Rightarrow> [] | Some b \<Rightarrow> middleware b) @
                        [func (captured t m n)])) ms \<and>
           router w' =
             fold (\<lambda>m. registerFunc (RelPath m) (HTTPMethod m)
                          ((case binder' t of None \<Rightarrow> [] | Some b \<Rightarrow> middleware b) @
                           [func (captured t m n)]))
               ms (router w) \<and>
           list_all (\<lambda>m. HandlerOf t m = Inr (Some (func (captured t m n)))) ms"
  unfolding RegisterMethodHandlers_PtrTo[OF assms]
  by (simp add: HandlerOf_PtrTo[OF assms(1)] list_all_iff)

theorem registered_arguments_witness:
  "Type items_t = PtrTo Items \<and>
   Resolve (shop [get_m, post_m] None) (Type items_t) = ([get_m, post_m], None) \<and>
   (\<exists>w'. RegisterMethodHandlers (shop [get_m, post_m] None) items_t add_route nothing = Inr w' \<and>
         calls w' =
           [(''/'', ''GET'', [auth, func (captured items_t get_m Items)]),
            (''/'', ''POST'', [auth, func (captured items_t post_m Items)])] \<and>
         router w' = [''GET /'', ''POST /''])"
proof -
  have 1: "Type items_t = PtrTo Items"
    by (simp add: items_t_def)
  have 2: "Resolve (shop [get_m, post_m] None) (Type items_t) = ([get_m, post_m], None)"
    by (simp add: shop_def)
  from registered_arguments[OF 1 2, of add_route nothing] obtain w' where
    w': "RegisterMethodHandlers (shop [get_m, post_m] None) items_t add_route nothing = Inr w'"
    "calls w' =
       calls nothing @
       map (\<lambda>m. (RelPath m, HTTPMethod m,
                  (case binder' items_t of None \<Rightarrow> [] | Some b \<Rightarrow> middleware b) @
                  [func (captured items_t m Items)])) [get_m, post_m]"
    "router w' =
       fold (\<lambda>m. add_route (RelPath m) (HTTPMethod m)
                    ((case binder' items_t of None \<Rightarrow> [] | Some b \<Rightarrow> middleware b) @
                     [func (captured items_t m Items)]))
         [get_m, post_m] (router nothing)"
    by auto
  have mw: "(case binder' items_t of None \<Rightarrow> [] | Some b \<Rightarrow> middleware b) = [auth]"
    by (simp add: items_t_def)
  have 3: "calls w' =
           [(''/'', ''GET'', [auth, func (captured items_t get_m Items)]),
            (''/'', ''POST'', [auth, func (captured items_t post_m Items)])]"
    unfolding w'(2) mw by (simp add: nothing_def get_m_def post_m_def)
  have 4: "router w' = [''GET /'', ''POST /'']"
    unfolding w'(3) mw by (simp add: nothing_def get_m_def post_m_def add_route_def)
  show ?thesis
    by (intro conjI exI[of _ w']) (fact 1 2 w'(1) 3 4)+
qed

text \<open>
  C6. The claim fails on the code: \<open>HandlerOf\<close> has no check of the descriptor and
  gives a handler, not nil, for a malformed one too (here: no adapter, an index outside
  the method set, empty names). \<open>RegisterMethodHandlers\<close> does not skip its route and
  logs no warning: the malformed descriptor is registered like the other. Its handler
  panics when a request reaches the method call.
\<close>

theorem malformed_descriptor_counterexample:
  "MethodCall bad_m = None \<and>
   Method Items (Index bad_m) = None \<and>
   HandlerOf items_t bad_m = Inr (Some (func (captured items_t bad_m Items))) \<and>
   HandlerOf items_t bad_m \<noteq> Inr None \<and>
   (case RegisterMethodHandlers (shop [bad_m, get_m] None) items_t add_route nothing of
      Inl p \<Rightarrow> False
    | Inr w' \<Rightarrow>
        calls w' =
          [([], [], [auth, func (captured items_t bad_m Items)]),
           (''/'', ''GET'', [auth, func (captured items_t get_m Items)])] \<and>
        router w' = ['' '', ''GET /''] \<and>
        filter (\<lambda>l. level_of l = WarnLevel) (logs w') = []) \<and>
   (case func (captured items_t bad_m Items) request of
      Inl (p, s) \<Rightarrow> p = MethodIndexOutOfRange
    | Inr s \<Rightarrow> False)"
proof -
  have 1: "Type items_t = PtrTo Items"
    by (simp add: items_t_def)
  have 2: "Resolve (shop [bad_m, get_m] None) (Type items_t) = ([bad_m, get_m], None)"
    by (simp add: shop_def)
  have mw: "(case binder' items_t of None \<Rightarrow> [] | Some b \<Rightarrow> middleware b) = [auth]"
    by (simp add: items_t_def)
  have 3: "MethodCall bad_m = None \<and> Method Items (Index bad_m) = None"
    by (simp add: bad_m_def Method_def)
  have 4: "(case func (captured items_t bad_m Items) request of
      Inl (p, s) \<Rightarrow> p = MethodIndexOutOfRange
    | Inr s \<Rightarrow> False)"
    by (simp add: handler_defs example_defs)
  show ?thesis
    using 3 4 HandlerOf_PtrTo[OF 1]
    unfolding RegisterMethodHandlers_PtrTo[OF 1 2] mw
    by (simp add: nothing_def get_m_def bad_m_def add_route_def)
qed

text \<open>
  C6, amended. For every descriptor, malformed or not, \<open>HandlerOf\<close> on a descriptor
  \<open>t\<close> whose \<open>Type\<close> is a pointer type gives a handler and never nil.
  \<open>RegisterMethodHandlers\<close> therefore skips no route and logs no warning: it registers
  every descriptor the resolution returned, one call of \<open>registerFunc\<close> each.
\<close>

theorem HandlerOf_never_nil:
  assumes "Type t = PtrTo n" and "Resolve d (Type t) = (ms, err)"
  shows "HandlerOf t m = Inr (Some (func (captured t m n))) \<and>
         HandlerOf t m \<noteq> Inr None \<and>
         (\<exists>w'. RegisterMethodHandlers d t registerFunc w = Inr w' \<and>
               length (calls w') = length (calls w) + length ms \<and>
               map (\<lambda>r. (fst r, fst (snd r))) (drop (length (calls w)) (calls w')) =
                 map (\<lambda>m. (RelPath m, HTTPMethod m)) ms \<and>
               filter (\<lambda>l. level_of l = WarnLevel) (logs w') =
                 filter (\<lambda>l. level_of l = WarnLevel) (logs w))"
proof -
  have dbg: "filter (\<lambda>l. level_of l = WarnLevel) (map (\<lambda>m. Logf DebugLevel (f m) (g m)) ms) = []"
    for f :: "('a, 'b) MethodFunc \<Rightarrow> string" and g :: "('a, 'b) MethodFunc \<Rightarrow> 'e logarg list"
    by (induction ms) auto
  show ?thesis
    unfolding RegisterMethodHandlers_PtrTo[OF assms]
    by (simp add: HandlerOf_PtrTo[OF assms(1)] dbg comp_def split: option.splits)
qed

theorem HandlerOf_never_nil_witness:
  "Type items_t = PtrTo Items \<and>
   Resolve (shop [bad_m, get_m] None) (Type items_t) = ([bad_m, get_m], None) \<and>
   HandlerOf items_t bad_m = Inr (Some (func (captured items_t bad_m Items))) \<and>
   (\<exists>w'. RegisterMethodHandlers (shop [bad_m, get_m] None) items_t add_route nothing = Inr w' \<and>
         length (calls w') = 2 \<and>
         filter (\<lambda>l. level_of l = WarnLevel) (logs w') = [])"
proof -
  have 1: "Type items_t = PtrTo Items"
    by (simp add: items_t_def)
  have 2: "Resolve (shop [bad_m, get_m] None) (Type items_t) = ([bad_m, get_m], None)"
    by (simp add: shop_def)
  from HandlerOf_never_nil[OF 1 2, of bad_m add_route nothing] obtain w' where
    h: "HandlerOf items_t bad_m = Inr (Some (func (captured items_t bad_m Items)))" and
    w': "RegisterMethodHandlers (shop [bad_m, get_m] None) items_t add_route nothing = Inr w'"
    "length (calls w') = length (calls nothing) + length [bad_m, get_m]"
    "filter (\<lambda>l. level_of l = WarnLevel) (logs w') =
       filter (\<lambda>l. level_of l = WarnLevel) (logs nothing)"
    by auto
  have 3: "length (calls w') = 2"
    using w'(2) by (simp add: nothing_def)
  have 4: "filter (\<lambda>l. level_of l = WarnLevel) (logs w') = []"
    using w'(3) by (simp add: nothing_def)
  show ?thesis
    by (intro conjI exI[of _ w']) (fact 1 2 h w'(1) 3 4)+
qed

text \<open>
  C4. The claim fails on the code: \<open>ActivateController\<close> checks nothing of its template
  and its error result is always nil. That a template has \<open>SetName\<close>, \<open>BeginRequest\<close>
  and \<open>EndRequest\<close> is required by the type of the parameter, \<open>BaseController\<close>, so
  the compiler refuses a template that lacks them; were one passed, as here, the
  activation would return a descriptor and no error, and \<open>Register\<close> would register its
  routes. And a template that has the three methods but is a nil pointer does not
  activate: \<open>val.Type()\<close> panics.
\<close>

theorem missing_capability_counterexample:
  "assert_BaseController Bare = None \<and>
   ActivateController (shop [get_m] None) (OfPointer Bare (Some ([], 0))) [] nothing =
     Inr (\<lparr>Name = ''Bare'', FullName = ''main.Bare'', Type = PtrTo Bare,
           Value = Valid Bare ([], 0), binder' = None, modelController = None,
           persistenceController = Some (\<lambda>y. (fst y, 0))\<rparr>,
          None, nothing) \<and>
   (case Register (shop [get_m] None) (OfPointer Bare (Some ([], 0))) [] add_route nothing of
      Inl p \<Rightarrow> False
    | Inr (err, w') \<Rightarrow> err = None \<and> router w' = [''GET /'']) \<and>
   assert_BaseController Items \<noteq> None \<and>
   ActivateController (shop [get_m] None) (OfPointer Items None) [] nothing = Inl InvalidValue"
proof -
  let ?t = "\<lparr>Name = ''Bare'', FullName = ''main.Bare'', Type = PtrTo Bare,
             Value = Valid Bare ([], 0), binder' = None, modelController = None,
             persistenceController = Some (\<lambda>y. (fst y, 0))\<rparr>
            :: (string \<times> int, string list, int) TController"
  have slash: "LastIndexByte ''main'' CHR ''/'' = - 1"
    by code_simp
  have 1: "ActivateController (shop [get_m] None) (OfPointer Bare (Some ([], 0))) [] nothing =
             Inr (?t, None, nothing)"
    by (simp add: registration_defs shop_def Bare_def Let_def slash)
  have ty: "Type ?t = PtrTo Bare"
    by simp
  have 2: "Resolve (shop [get_m] None) (Type ?t) = ([get_m], None)"
    by (simp add: shop_def)
  have 3: "CallOnActivate (shop [get_m] None) (OfPointer Bare (Some ([], 0))) [] add_route nothing =
             ([], nothing)"
    by (simp add: shop_def)
  have 4: "(case Register (shop [get_m] None) (OfPointer Bare (Some ([], 0))) [] add_route nothing of
      Inl p \<Rightarrow> False
    | Inr (err, w') \<Rightarrow> err = None \<and> router w' = [''GET /''])"
    unfolding Register_def 3 1 prod.case sum.case option.case
      RegisterMethodHandlers_PtrTo[OF ty 2]
    by (simp add: nothing_def get_m_def add_route_def)
  have 5: "assert_BaseController Bare = None \<and> assert_BaseController Items \<noteq> None"
    by (simp add: assert_BaseController_def Bare_def Items_def)
  have 6: "ActivateController (shop [get_m] None) (OfPointer Items None) [] nothing = Inl InvalidValue"
    by (simp add: registration_defs Let_def)
  show ?thesis
    using 1 4 5 6 by simp
qed

lemma ActivateController_no_error:
  "ActivateController d base bindValues w = Inr (t, Some err, w') \<longleftrightarrow> False"
  by (cases base)
    (simp_all add: ActivateController_def reflect_TypeOf_def reflect_Indirect_ValueOf_def
        Value_Type_def Elem_def Let_def split: option.splits)

text \<open>The qualified name is the last segment of the package path, a dot, the name.\<close>

lemma LastIndexByte_items: "LastIndexByte ''github.com/acme/shop/items'' CHR ''/'' = 20"
  by code_simp

lemma ActivateController_Items:
  "ActivateController (shop [get_m] None) (OfValue Items ([], 5)) [7] nothing =
     Inr (\<lparr>Name = ''Items'', FullName = ''items.Items'', Type = PtrTo Items,
           Value = Valid Items ([], 5),
           binder' = Some \<lparr>fields' = [(''Counter'', 7)], middleware = [auth],
                            handle = (\<lambda>x. (fst x, 7))\<rparr>,
           modelController = None,
           persistenceController = Some (\<lambda>y. (fst y, 5))\<rparr>,
          None,
          \<lparr>router = [], calls = [],
           logs = [Logf DebugLevel ''MVC %s: binder loaded for '%s' with value:\<newline>%#v''
                     [LStr ''items.Items'', LStr ''Counter'', LVal 7]]\<rparr>)"
  by (simp add: registration_defs shop_def Items_def nothing_def Let_def LastIndexByte_items)

text \<open>
  C4, amended. \<open>ActivateController\<close> never returns an error, for any template: it
  panics for the nil interface and for a nil pointer, and for every other template it
  returns a nil error and a descriptor with the name of the template's type, the pointer
  type as \<open>Type\<close>, the template's value as \<open>Value\<close> and the collaborators its loaders
  give. \<open>Register\<close> therefore never returns an error either. (That the template has the
  three base-controller methods is checked by the compiler, not here.)
\<close>

theorem activation_returns_no_error:
  "(case ActivateController d base bindValues w of
      Inl p \<Rightarrow> base = NilInterface \<or> (\<exists>n. base = OfPointer n None)
    | Inr (t, err, w') \<Rightarrow>
        err = None \<and>
        (\<exists>n x. (base = OfValue n x \<or> base = OfPointer n (Some x)) \<and>
               Name t = type_Name n \<and> Type t = PtrTo n \<and> Value t = Valid n x \<and>
               binder' t = newBinder d n bindValues \<and>
               modelController t = model_Load d (PtrTo n) \<and>
               persistenceController t = persistence_Load d (PtrTo n) (Valid n x))) \<and>
   (case Register d base bindValues registerFunc w of
      Inl p \<Rightarrow> True
    | Inr (err, w') \<Rightarrow> err = None)"
proof -
  have a: "(case ActivateController d base bindValues w of
      Inl p \<Rightarrow> base = NilInterface \<or> (\<exists>n. base = OfPointer n None)
    | Inr (t, err, w') \<Rightarrow>
        err = None \<and>
        (\<exists>n x. (base = OfValue n x \<or> base = OfPointer n (Some x)) \<and>
               Name t = type_Name n \<and> Type t = PtrTo n \<and> Value t = Valid n x \<and>
               binder' t = newBinder d n bindValues \<and>
               modelController t = model_Load d (PtrTo n) \<and>
               persistenceController t = persistence_Load d (PtrTo n) (Valid n x)))"
    for bindValues w
    by (cases base)
      (auto simp: ActivateController_def reflect_TypeOf_def reflect_Indirect_ValueOf_def
        Value_Type_def Elem_def Let_def split: option.splits)
  have b: "(case Register d base bindValues registerFunc w of
      Inl p \<Rightarrow> True
    | Inr (err, w') \<Rightarrow> err = None)"
    by (auto simp: Register_def ActivateController_no_error
        split: sum.splits prod.splits option.splits)
  show ?thesis
    using a b by simp
qed

section \<open>Requests never share an instance\<close>

text \<open>One statement of a request: what it does to its instance and to memory.\<close>

lemma step_allocates:
  "step e L125 s =
     (L126 (length (heap s)),
      s\<lparr>heap := heap s @ [zero (cap_elem e)], trace := trace s @ [Ev_New (length (heap s))]\<rparr>)"
  by (simp add: reflect_New_def emit_def)

lemma on_instance_heap:
  "length (heap (on_instance f c s)) = length (heap s) \<and>
   (a \<noteq> c \<longrightarrow> heap (on_instance f c s) ! a = heap s ! a)"
  by (simp add: on_instance_def)

lemma on_instance_ctx_heap:
  "length (heap (on_instance_ctx h c s)) = length (heap s) \<and>
   (a \<noteq> c \<longrightarrow> heap (on_instance_ctx h c s) ! a = heap s ! a)"
  by (simp add: on_instance_ctx_def split: prod.splits)

lemma emit_heap [simp]: "heap (emit ev s) = heap s"
  by (simp add: emit_def)

lemma step_keeps_instance:
  assumes "step e l s = (l', s')" and "instance_of l = Some c"
  shows "instance_of l' = Some c \<and> length (heap s') = length (heap s) \<and>
         (a \<noteq> c \<longrightarrow> heap s' ! a = heap s ! a)"
  using assms
  by (cases l)
    (auto simp: on_instance_heap on_instance_ctx_heap split: option.splits if_splits)

lemma step_stays:
  assumes "step e l s = (l, s')"
  shows "s' = s"
  using assms by (cases l) (auto split: option.splits if_splits prod.splits)

text \<open>The instances of a server after a request arrived or took a statement.\<close>

lemma instances_arrive: "instances (S\<lparr>requests := requests S @ [(L125, k)]\<rparr>) = instances S"
  by (simp add: instances_def)

lemma instances_same:
  assumes "i < length rs" and "instance_of (fst (rs ! i)) = instance_of l'"
  shows "instances \<lparr>requests = rs[i := (l', k')], memory = m', history = h'\<rparr> =
         instances \<lparr>requests = rs, memory = m, history = h\<rparr>"
proof -
  let ?f = "\<lambda>r :: ('a, 'b) pc \<times> 'b Context.
              case instance_of (fst r) of None \<Rightarrow> [] | Some c \<Rightarrow> [c]"
  have "map ?f (rs[i := (l', k')]) = (map ?f rs)[i := map ?f rs ! i]"
    using assms by (simp add: map_update)
  then have "map ?f (rs[i := (l', k')]) = map ?f rs"
    by simp
  then show ?thesis
    by (simp add: instances_def)
qed

lemma instances_new:
  assumes "i < length rs" and "rs ! i = (L125, k)"
  shows "\<exists>xs ys. instances \<lparr>requests = rs, memory = m, history = h\<rparr> = xs @ ys \<and>
           instances \<lparr>requests = rs[i := (L126 c, k')], memory = m', history = h'\<rparr> = xs @ c # ys"
proof -
  let ?f = "\<lambda>r :: ('a, 'b) pc \<times> 'b Context.
              case instance_of (fst r) of None \<Rightarrow> [] | Some c \<Rightarrow> [c]"
  have a: "rs = take i rs @ (L125, k) # drop (Suc i) rs"
    using assms by (metis id_take_nth_drop)
  have b: "rs[i := (L126 c, k')] = take i rs @ (L126 c, k') # drop (Suc i) rs"
    using assms(1) by (rule upd_conv_take_nth_drop)
  have "instances \<lparr>requests = rs, memory = m, history = h\<rparr> =
          concat (map ?f (take i rs)) @ concat (map ?f (drop (Suc i) rs))"
    unfolding instances_def by (subst a) simp
  moreover have "instances \<lparr>requests = rs[i := (L126 c, k')], memory = m', history = h'\<rparr> =
          concat (map ?f (take i rs)) @ c # concat (map ?f (drop (Suc i) rs))"
    unfolding instances_def b by simp
  ultimately show ?thesis by blast
qed

text \<open>
  The invariant: the instances of the requests are pairwise different, and each is a
  position of memory.
\<close>

lemma serving_invariant:
  assumes "serving e S S'"
    and "distinct (instances S)"
    and "\<forall>c \<in> set (instances S). c < length (memory S)"
  shows "distinct (instances S') \<and> (\<forall>c \<in> set (instances S'). c < length (memory S'))"
  using assms
proof (cases rule: serving.cases)
  case (arrive k)
  then show ?thesis
    using assms(2,3) by (simp add: instances_arrive)
next
  case (advance i l k l' s')
  let ?s = "\<lparr>ctx = k, heap = memory S, trace = history S\<rparr>"
  have S: "S = \<lparr>requests = requests S, memory = memory S, history = history S\<rparr>"
    by simp
  show ?thesis
  proof (cases "instance_of l")
    case None
    then have l: "l = L125"
      by (cases l) auto
    from advance(4) have l': "l' = L126 (length (memory S))"
      and h: "heap s' = memory S @ [zero (cap_elem e)]"
      unfolding l step_allocates by auto
    from instances_new[OF advance(2) advance(3)[unfolded l],
        of "memory S" "history S" "length (memory S)" "ctx s'" "heap s'" "trace s'"]
    obtain xs ys where
      "instances \<lparr>requests = requests S, memory = memory S, history = history S\<rparr> = xs @ ys"
      "instances S' = xs @ length (memory S) # ys"
      unfolding advance(1) l' by blast
    then have old: "instances S = xs @ ys" and new: "instances S' = xs @ length (memory S) # ys"
      by (simp_all add: instances_def)
    have "memory S' = memory S @ [zero (cap_elem e)]"
      using h by (simp add: advance(1))
    then show ?thesis
      using assms(2,3) unfolding old new by (auto simp: less_Suc_eq)
  next
    case (Some c)
    from step_keeps_instance[OF advance(4) Some]
    have k: "instance_of l' = Some c" "length (heap s') = length (memory S)"
      by auto
    have "instance_of (fst (requests S ! i)) = instance_of l'"
      using advance(3) Some k(1) by simp
    from instances_same[OF advance(2) this, of "ctx s'" "heap s'" "trace s'" "memory S" "history S"]
    have "instances S' = instances S"
      unfolding advance(1) by (simp add: instances_def)
    then show ?thesis
      using assms(2,3) k(2) by (simp add: advance(1))
  qed
qed

lemma reaches_invariant:
  assumes "reaches e (idle m evs) S"
  shows "distinct (instances S) \<and> (\<forall>c \<in> set (instances S). c < length (memory S))"
  using assms
proof (induction rule: reaches.induct)
  case start
  then show ?case by (simp add: instances_def idle_def)
next
  case (next_step S S')
  then show ?case using serving_invariant by blast
qed

text \<open>Different requests of a server whose instances are distinct have different ones.\<close>

lemma concat_distinct_nth:
  assumes "distinct (concat xss)" and "i < length xss" and "j < length xss" and "i < j"
    and "a \<in> set (xss ! i)"
  shows "a \<notin> set (xss ! j)"
  using assms
proof (induction xss arbitrary: i j)
  case Nil
  then show ?case by simp
next
  case (Cons xs xss)
  obtain j' where j: "j = Suc j'"
    using Cons.prems(4) by (cases j) auto
  show ?case
  proof (cases i)
    case 0
    have "xss ! j' \<in> set xss"
      using Cons.prems(3) j by simp
    then have "set (xss ! j') \<subseteq> set (concat xss)"
      by auto
    then show ?thesis
      using Cons.prems(1,5) 0 j by auto
  next
    case (Suc i')
    then show ?thesis
      using Cons.prems j Cons.IH[of i' j'] by auto
  qed
qed

lemma instances_distinct_nth:
  assumes "distinct (instances S)"
    and "i < length (requests S)" and "j < length (requests S)" and "i \<noteq> j"
    and "instance_of (fst (requests S ! i)) = Some c"
  shows "instance_of (fst (requests S ! j)) \<noteq> Some c"
proof
  assume j: "instance_of (fst (requests S ! j)) = Some c"
  let ?f = "\<lambda>r :: ('a, 'b) pc \<times> 'b Context.
              case instance_of (fst r) of None \<Rightarrow> [] | Some c \<Rightarrow> [c]"
  have d: "distinct (concat (map ?f (requests S)))"
    using assms(1) by (simp add: instances_def)
  have ci: "c \<in> set (map ?f (requests S) ! i)" and cj: "c \<in> set (map ?f (requests S) ! j)"
    using assms(2,3,5) j by simp_all
  show False
  proof (cases "i < j")
    case True
    from concat_distinct_nth[OF d _ _ True ci] cj assms(2,3) show False by simp
  next
    case False
    then have "j < i" using assms(4) by simp
    from concat_distinct_nth[OF d _ _ this cj] ci assms(2,3) show False by simp
  qed
qed

lemma instances_member:
  assumes "j < length (requests S)" and "instance_of (fst (requests S ! j)) = Some c"
  shows "c \<in> set (instances S)"
proof -
  have "requests S ! j \<in> set (requests S)"
    using assms(1) by simp
  then show ?thesis
    using assms(2) unfolding instances_def by force
qed

text \<open>A statement of one request leaves the instance of every other request as it was.\<close>

lemma serving_frame:
  assumes "serving e S S'"
    and "distinct (instances S)"
    and "\<forall>c \<in> set (instances S). c < length (memory S)"
    and "j < length (requests S)"
    and "requests S' ! j = requests S ! j"
    and "instance_of (fst (requests S ! j)) = Some c"
  shows "memory S' ! c = memory S ! c"
  using assms(1)
proof (cases rule: serving.cases)
  case (arrive k)
  then show ?thesis by simp
next
  case (advance i l k l' s')
  have c: "c < length (memory S)"
    using instances_member[OF assms(4,6)] assms(3) by blast
  show ?thesis
  proof (cases "i = j")
    case True
    then have "(l', ctx s') = (l, k)"
      using assms(5) advance(1,2,3) by simp
    then have "step e l \<lparr>ctx = k, heap = memory S, trace = history S\<rparr> = (l, s')"
      using advance(4) by simp
    from step_stays[OF this] show ?thesis
      by (simp add: advance(1))
  next
    case False
    show ?thesis
    proof (cases "instance_of l")
      case None
      then have l: "l = L125"
        by (cases l) auto
      from advance(4) have "heap s' = memory S @ [zero (cap_elem e)]"
        unfolding l step_allocates by auto
      then show ?thesis
        using c by (simp add: advance(1) nth_append)
    next
      case (Some ci)
      have "instance_of (fst (requests S ! i)) = Some ci"
        using advance(3) Some by simp
      from instances_distinct_nth[OF assms(2) advance(2) assms(4) False this] assms(6)
      have "c \<noteq> ci" by auto
      with step_keeps_instance[OF advance(4) Some, of c] show ?thesis
        by (simp add: advance(1))
    qed
  qed
qed

text \<open>A request run alone is a call of the handler; a call allocates one instance.\<close>

lemma steps_final [simp]:
  "steps k e (Returned c, s) = (Returned c, s)"
  "steps k e (Panicked c p, s) = (Panicked c p, s)"
  by (induction k) auto

lemma steps_func: "outcome (steps 11 e (L125, s)) = Some (func e s)"
  by (simp add: eval_nat_numeral func_def serve_def prepare_def reflect_New_def Let_def
      split: option.splits prod.splits)

lemma func_allocates_one: "\<exists>x. heap (final (func e s)) = heap s @ [x]"
  by (simp add: func_def serve_def prepare_def reflect_New_def final_def emit_def on_instance_def
      on_instance_ctx_def Let_def split: option.splits prod.splits)

text \<open>
  C7. The requests to the route of the handler \<open>HandlerOf\<close> gives, run one after the
  other or interleaved statement by statement in any way, over a memory that may hold
  the instances of earlier requests: no two requests have the same instance, and every
  instance is a position of memory; line 125 gives a request the zero value of the
  controller type at a new position, beyond every instance there is; a statement of one
  request leaves the instance of every other request as it was. A request run alone is
  a call of the handler, and a call adds exactly one instance to memory and changes
  none of those that were there.
\<close>

theorem instances_never_shared:
  assumes "Type t = PtrTo n" and "reaches (captured t m n) (idle mem evs) S"
  shows "HandlerOf t m = Inr (Some (func (captured t m n))) \<and>
         distinct (instances S) \<and>
         list_all (\<lambda>c. c < length (memory S)) (instances S) \<and>
         (\<forall>s. step (captured t m n) L125 s =
                (L126 (length (heap s)),
                 s\<lparr>heap := heap s @ [zero n], trace := trace s @ [Ev_New (length (heap s))]\<rparr>)) \<and>
         (\<forall>S' j c. serving (captured t m n) S S' \<longrightarrow> j < length (requests S) \<longrightarrow>
                    requests S' ! j = requests S ! j \<longrightarrow>
                    instance_of (fst (requests S ! j)) = Some c \<longrightarrow>
                    memory S' ! c = memory S ! c) \<and>
         (\<forall>s. outcome (steps 11 (captured t m n) (L125, s)) = Some (func (captured t m n) s)) \<and>
         (\<forall>s. \<exists>x. heap (final (func (captured t m n) s)) = heap s @ [x])"
proof -
  from reaches_invariant[OF assms(2)]
  have inv: "distinct (instances S)" "\<forall>c \<in> set (instances S). c < length (memory S)"
    by auto
  have alloc: "\<forall>s. step (captured t m n) L125 s =
                (L126 (length (heap s)),
                 s\<lparr>heap := heap s @ [zero n], trace := trace s @ [Ev_New (length (heap s))]\<rparr>)"
    by (simp add: reflect_New_def emit_def)
  have frame: "\<forall>S' j c. serving (captured t m n) S S' \<longrightarrow> j < length (requests S) \<longrightarrow>
                    requests S' ! j = requests S ! j \<longrightarrow>
                    instance_of (fst (requests S ! j)) = Some c \<longrightarrow>
                    memory S' ! c = memory S ! c"
    using serving_frame[OF _ inv] by blast
  have h: "HandlerOf t m = Inr (Some (func (captured t m n)))"
    by (rule HandlerOf_PtrTo[OF assms(1)])
  have bound: "list_all (\<lambda>c. c < length (memory S)) (instances S)"
    using inv(2) by (simp add: list_all_iff)
  have alone: "\<forall>s. outcome (steps 11 (captured t m n) (L125, s)) = Some (func (captured t m n) s)"
    by (intro allI) (rule steps_func)
  have one: "\<forall>s. \<exists>x. heap (final (func (captured t m n) s)) = heap s @ [x]"
    by (intro allI) (rule func_allocates_one)
  show ?thesis
    by (intro conjI) (fact h inv(1) bound alloc frame alone one)+
qed

theorem instances_never_shared_witness:
  "Type items_t = PtrTo Items \<and>
   reaches (captured items_t get_m Items) (idle [] []) two_requests \<and>
   instances two_requests = [0, 1] \<and>
   distinct (instances two_requests)"
proof -
  let ?e = "captured items_t get_m Items"
  let ?k1 = "\<lparr>stopped = False, rest = [] :: string list\<rparr>"
  let ?k2 = "\<lparr>stopped = True, rest = [] :: string list\<rparr>"
  let ?S0 = "idle [] [] :: (string \<times> int, string list) server"
  let ?S1 = "\<lparr>requests = [(L125, ?k1)], memory = [], history = []\<rparr>
             :: (string \<times> int, string list) server"
  let ?S2 = "\<lparr>requests = [(L125, ?k1), (L125, ?k2)], memory = [], history = []\<rparr>
             :: (string \<times> int, string list) server"
  let ?S3 = "\<lparr>requests = [(L126 0, ?k1), (L125, ?k2)], memory = [([], 0)], history = [Ev_New 0]\<rparr>
             :: (string \<times> int, string list) server"
  let ?S4 = "\<lparr>requests = [(L126 0, ?k1), (L126 1, ?k2)], memory = [([], 0), ([], 0)],
              history = [Ev_New 0, Ev_New 1]\<rparr>
             :: (string \<times> int, string list) server"
  have ty: "Type items_t = PtrTo Items"
    by (simp add: items_t_def)
  have z: "zero (cap_elem ?e) = ([], 0)"
    by (simp add: Items_def)
  have s1: "serving ?e ?S0 ?S1"
    using serving.arrive[of ?e ?S0 ?k1] by (simp add: idle_def)
  have s2: "serving ?e ?S1 ?S2"
    using serving.arrive[of ?e ?S1 ?k2] by simp
  have s3: "serving ?e ?S2 ?S3"
    using serving.advance[of 0 ?S2 L125 ?k1 ?e "L126 0"
        "\<lparr>ctx = ?k1, heap = [([], 0)], trace = [Ev_New 0]\<rparr>"]
    by (simp add: reflect_New_def emit_def Items_def)
  have s4: "serving ?e ?S3 ?S4"
    using serving.advance[of 1 ?S3 L125 ?k2 ?e "L126 1"
        "\<lparr>ctx = ?k2, heap = [([], 0), ([], 0)], trace = [Ev_New 0, Ev_New 1]\<rparr>"]
    by (simp add: reflect_New_def emit_def Items_def)
  have "reaches ?e ?S0 ?S4"
    using reaches.start[of ?e ?S0] s1 s2 s3 s4 reaches.next_step by blast
  then have r: "reaches ?e (idle [] []) two_requests"
    by (simp add: two_requests_def)
  have i: "instances two_requests = [0, 1]"
    by (simp add: instances_def two_requests_def)
  have d: "distinct (instances two_requests)"
    by (rule instances_never_shared[OF ty r, THEN conjunct2, THEN conjunct1])
  show ?thesis
    by (intro conjI) (fact ty r i d)+
qed

end
